theory Spec2Isabelle
  imports Main "HOL-Library.Option_ord" "HOL-Library.Product_Lexorder"
begin

section \<open>The exercise image model of wger/exercises/models/image.py\<close>

text \<open>
  The file defines one Django model, \<open>ExerciseImage\<close>, with the hooks \<open>save\<close>,
  \<open>delete\<close> and \<open>set_author\<close>, and the function \<open>exercise_image_upload_dir\<close>.
  The database is explicit state: the table of image rows and the table of languages.
  What a hook does beyond the table (cache invalidation, the row operations it issues,
  mail) is returned as a list of events, in the order of the calls.
\<close>

subsection \<open>Rows and instances\<close>

text \<open>
  Modelled from the spec: the submission mixin \<open>AbstractSubmissionModel\<close> is not part
  of the file; its \<open>status\<close> field is pending, accepted or declined, pending by
  default.
\<close>

datatype status = STATUS_PENDING | STATUS_ACCEPTED | STATUS_DECLINED

text \<open>The values of \<open>STYLE\<close>.\<close>

datatype style = LINE_ART | THREE_D | LOW_POLY | PHOTO | OTHER

text \<open>
  An instance of the model. The primary key \<open>id\<close> is \<open>pk\<close> here (Django's alias),
  \<open>None\<close> until the instance is first saved. \<open>uuid\<close> holds the textual form that
  \<open>str.format\<close> prints. \<open>exercise_base\<close> is the id of the exercise base. The
  \<open>image\<close> field, the uploaded file, plays no part in the hooks and is left out.
\<close>

text \<open>
  Modelled from the spec: the fields \<open>status\<close> and \<open>license_author\<close> come from the
  mixins \<open>AbstractSubmissionModel\<close> and \<open>AbstractLicenseModel\<close>, which are not part
  of the file; \<open>license_author\<close> may be absent or empty. Neither the class nor the
  data model of the specification has a field \<open>name\<close> or \<open>exercise\<close>.
\<close>

record exercise_image =
  pk :: "nat option"
  uuid :: string
  exercise_base :: nat
  is_main :: bool
  style :: style
  status :: status
  license_author :: "string option"

text \<open>
  Modelled from the spec: the model \<open>Language\<close> is not part of the file; the hooks read
  the ids of the configured languages. The database is the rows of \<open>ExerciseImage\<close>,
  these ids, and the sequence of the image ids: the greatest id the store has written
  so far, which stays when the row is deleted.
\<close>

record db =
  images :: "exercise_image list"
  languages :: "nat list"
  sequence :: nat

text \<open>
  Modelled from the spec: \<open>delete_template_fragment_cache\<close> is not part of the file; a
  call of it invalidates one fragment for one language and is the event
  \<open>CacheDelete\<close>. The other events are the calls into Django: the bulk
  \<open>update(is_main=False)\<close> on the images of an exercise base, \<open>Model.save\<close> of an
  instance, \<open>Model.delete\<close> of the row with an id, and \<open>mail_admins\<close> with a subject
  and a message.
\<close>

datatype event =
    CacheDelete string nat
  | BulkUpdate nat
  | RowSave exercise_image
  | RowDelete nat
  | MailAdmins string string

text \<open>
  What a call can raise: \<open>Model.delete\<close> on an instance that was never saved, an index
  into an empty query set, a failure of the mail transport, and the read of an attribute
  that the instance does not have.
\<close>

datatype error = NotPersisted | IndexError | MailError | AttributeError

subsection \<open>Query sets\<close>

text \<open>
  A query set is lazy: a condition on rows, evaluated against the table when it is
  counted, updated or indexed. \<open>objects\<close> is the manager (all rows).
\<close>

type_synonym queryset = "exercise_image \<Rightarrow> bool"

definition objects :: queryset where
  "objects = (\<lambda>x. True)"

text \<open>
  Modelled from the spec: \<open>SubmissionManager\<close> is not part of the file; its
  \<open>accepted()\<close> keeps the rows whose status is accepted.
\<close>

definition accepted :: "queryset \<Rightarrow> queryset" where
  "accepted q = (\<lambda>x. q x \<and> status x = STATUS_ACCEPTED)"

definition filter_exercise_base :: "nat \<Rightarrow> queryset \<Rightarrow> queryset" where
  "filter_exercise_base b q = (\<lambda>x. q x \<and> exercise_base x = b)"

definition filter_is_main :: "bool \<Rightarrow> queryset \<Rightarrow> queryset" where
  "filter_is_main v q = (\<lambda>x. q x \<and> is_main x = v)"

definition count :: "queryset \<Rightarrow> exercise_image list \<Rightarrow> nat" where
  "count q rows = length (filter q rows)"

definition update_is_main :: "queryset \<Rightarrow> bool \<Rightarrow> exercise_image list \<Rightarrow> exercise_image list" where
  "update_is_main q v rows = map (\<lambda>x. if q x then x\<lparr>is_main := v\<rparr> else x) rows"

text \<open>\<open>Meta.ordering = ['-is_main', 'id']\<close>: main images first, then ascending id.\<close>

definition ordering :: "exercise_image \<Rightarrow> bool \<times> nat option" where
  "ordering x = (\<not> is_main x, pk x)"

definition fetch :: "queryset \<Rightarrow> exercise_image list \<Rightarrow> exercise_image list" where
  "fetch q rows = sort_key ordering (filter q rows)"

subsection \<open>The row operations of the store\<close>

text \<open>
  \<open>Model.save\<close> updates the row that has the instance's primary key and inserts a row
  when there is none; an instance without a primary key gets a new one from the store,
  above the sequence \<open>s\<close> and above every id in the table, so that no id is handed
  out twice. \<open>Model.delete\<close> removes the row with the instance's primary key and
  refuses an instance that has none.
\<close>

primrec max_pk :: "exercise_image list \<Rightarrow> nat" where
  "max_pk [] = 0"
| "max_pk (x # xs) = (case pk x of None \<Rightarrow> max_pk xs | Some i \<Rightarrow> max i (max_pk xs))"

definition model_save :: "nat \<Rightarrow> exercise_image \<Rightarrow> exercise_image list \<Rightarrow> exercise_image \<times> exercise_image list" where
  "model_save s self rows =
     (case pk self of
        Some i \<Rightarrow>
          if Some i \<in> set (map pk rows)
          then (self, map (\<lambda>x. if pk x = Some i then self else x) rows)
          else (self, rows @ [self])
      | None \<Rightarrow>
          (let self' = self\<lparr>pk := Some (Suc (max s (max_pk rows)))\<rparr> in (self', rows @ [self'])))"

text \<open>The sequence after a row with the primary key \<open>p\<close> has been written.\<close>

definition advance :: "nat \<Rightarrow> nat option \<Rightarrow> nat" where
  "advance s p = (case p of None \<Rightarrow> s | Some i \<Rightarrow> max s i)"

definition model_delete :: "nat \<Rightarrow> exercise_image list \<Rightarrow> exercise_image list" where
  "model_delete i rows = filter (\<lambda>x. pk x \<noteq> Some i) rows"

subsection \<open>The hooks\<close>

text \<open>
  The loop over \<open>Language.objects.all()\<close> that \<open>save\<close> and \<open>delete\<close> both
  contain: four \<open>delete_template_fragment_cache\<close> calls for each language.
\<close>

definition reset_cache :: "nat list \<Rightarrow> event list" where
  "reset_cache langs =
     concat (map (\<lambda>l. [CacheDelete ''muscle-overview'' l,
                        CacheDelete ''exercise-overview'' l,
                        CacheDelete ''exercise-overview-mobile'' l,
                        CacheDelete ''equipment-overview'' l]) langs)"

text \<open>\<open>ExerciseImage.save\<close>: returns the instance as the call leaves it, the database and the events.\<close>

definition save :: "exercise_image \<Rightarrow> db \<Rightarrow> exercise_image \<times> db \<times> event list" where
  "save self d =
     (let b = exercise_base self;
          (self1, rows1, ev1) =
            (if is_main self
             then (self\<lparr>is_main := True\<rparr>,
                   update_is_main (filter_exercise_base b objects) False (images d),
                   [BulkUpdate b])
             else if count (filter_exercise_base b (accepted objects)) (images d) = 0
                     \<or> \<not> (count (filter_is_main True (filter_exercise_base b (accepted objects))) (images d) \<noteq> 0)
                  then (self\<lparr>is_main := True\<rparr>, images d, [])
                  else (self, images d, []));
          ev2 = reset_cache (languages d);
          (self2, rows2) = model_save (sequence d) self1 rows1
      in (self2, d\<lparr>images := rows2, sequence := advance (sequence d) (pk self2)\<rparr>,
          ev1 @ ev2 @ [RowSave self2]))"

text \<open>
  \<open>ExerciseImage.delete\<close>. \<open>Model.delete\<close> comes first and raises for an instance
  without a primary key, before anything else is done. The index \<open>[0]\<close> of an empty
  query set raises \<open>IndexError\<close>.
\<close>

definition delete :: "exercise_image \<Rightarrow> db \<Rightarrow> error + (db \<times> event list)" where
  "delete self d =
     (case pk self of
        None \<Rightarrow> Inl NotPersisted
      | Some i \<Rightarrow>
          (let d1 = d\<lparr>images := model_delete i (images d)\<rparr>;
               ev1 = RowDelete i # reset_cache (languages d1);
               b = exercise_base self
           in if \<not> (count (filter_is_main True (filter_exercise_base b (accepted objects))) (images d1) \<noteq> 0)
                 \<and> count (filter_is_main False (filter_exercise_base b (accepted objects))) (images d1) \<noteq> 0
              then (case fetch (filter_is_main False (filter_exercise_base b (accepted objects))) (images d1) of
                      [] \<Rightarrow> Inl IndexError
                    | img # _ \<Rightarrow>
                        (let (img', d2, ev2) = save (img\<lparr>is_main := True\<rparr>) d1
                         in Inr (d2, ev1 @ ev2)))
              else Inr (d1, ev1)))"

text \<open>\<open>get_owner_object\<close> returns \<open>False\<close>.\<close>

definition get_owner_object :: "exercise_image \<Rightarrow> bool" where
  "get_owner_object self = False"

subsection \<open>Author and status on submission\<close>

text \<open>
  Django's request, as far as \<open>set_author\<close> reads it: the user, with a name and the
  permissions held, and the host. \<open>mail_admins\<close> hands one message to the mail
  transport, whose success is the parameter \<open>transport_ok\<close>; a failure of the transport
  is raised unless \<open>fail_silently\<close> is set. The translation \<open>_\<close> is the identity.
\<close>

record user =
  username :: string
  permissions :: "string list"

record request =
  request_user :: user
  host :: string

definition has_perm :: "user \<Rightarrow> string \<Rightarrow> bool" where
  "has_perm u p = (p \<in> set (permissions u))"

definition get_host :: "request \<Rightarrow> string" where
  "get_host r = host r"

definition mail_admins :: "bool \<Rightarrow> string \<Rightarrow> string \<Rightarrow> bool \<Rightarrow> error + event list" where
  "mail_admins transport_ok subject message fail_silently =
     (if transport_ok \<or> fail_silently then Inr [MailAdmins subject message] else Inl MailError)"

text \<open>\<open>s.split(':')[0]\<close>: the part of \<open>s\<close> before its first colon.\<close>

definition split_colon_0 :: "string \<Rightarrow> string" where
  "split_colon_0 s = takeWhile (\<lambda>c. c \<noteq> CHR '':'') s"

text \<open>
  The reads \<open>self.name\<close> and \<open>self.exercise\<close> in \<open>set_author\<close>: the class declares
  the fields \<open>uuid\<close>, \<open>exercise_base\<close>, \<open>image\<close>, \<open>is_main\<close> and \<open>style\<close>
  and inherits the submission and license fields, so an instance has neither attribute
  and both reads raise \<open>AttributeError\<close>.
\<close>

definition attr_name :: "exercise_image \<Rightarrow> error + string" where
  "attr_name self = Inl AttributeError"

definition attr_exercise :: "exercise_image \<Rightarrow> error + string" where
  "attr_exercise self = Inl AttributeError"

text \<open>Python's truth value of an optional string: \<open>None\<close> and \<open>''\<close> are false.\<close>

definition truthy :: "string option \<Rightarrow> bool" where
  "truthy s = (case s of None \<Rightarrow> False | Some t \<Rightarrow> t \<noteq> [])"

text \<open>
  \<open>set_author\<close> changes the instance in place, so a call that raises leaves the instance
  as it was when the error came: the error is returned with it.
\<close>

definition set_author :: "bool \<Rightarrow> exercise_image \<Rightarrow> request
    \<Rightarrow> (error \<times> exercise_image) + (exercise_image \<times> event list)" where
  "set_author transport_ok self r =
     (if has_perm (request_user r) ''exercises.add_exerciseimage''
      then (let self1 = self\<lparr>status := STATUS_ACCEPTED\<rparr>;
                self2 = (if \<not> truthy (license_author self1)
                         then self1\<lparr>license_author := Some (split_colon_0 (get_host r))\<rparr>
                         else self1)
            in Inr (self2, []))
      else (let self1 = (if \<not> truthy (license_author self)
                         then self\<lparr>license_author := Some (username (request_user r))\<rparr>
                         else self);
                subject = ''New user submitted image''
            in case attr_name self1 of
                 Inl e \<Rightarrow> Inl (e, self1)
               | Inr nm \<Rightarrow>
                   (case attr_exercise self1 of
                      Inl e \<Rightarrow> Inl (e, self1)
                    | Inr ex \<Rightarrow>
                        (let message = ''The user '' @ username (request_user r)
                               @ '' submitted a new image \"'' @ nm @ ''\" for exercise '' @ ex @ ''.''
                         in case mail_admins transport_ok subject message True of
                              Inl e \<Rightarrow> Inl (e, self1)
                            | Inr ev \<Rightarrow> Inr (self1, ev)))))"

subsection \<open>The upload path\<close>

text \<open>
  \<open>pathlib.Path(filename).suffix\<close> on a POSIX path: the name is the last component
  that is neither empty nor a single dot, and its suffix starts at its last dot, unless
  that dot is the first or the last character of the name.
\<close>

fun split_slash :: "string \<Rightarrow> string list" where
  "split_slash [] = [[]]"
| "split_slash (c # cs) =
     (if c = CHR ''/'' then [] # split_slash cs
      else (case split_slash cs of [] \<Rightarrow> [[c]] | p # ps \<Rightarrow> (c # p) # ps))"

definition path_name :: "string \<Rightarrow> string" where
  "path_name filename =
     (case rev (filter (\<lambda>p. p \<noteq> [] \<and> p \<noteq> ''.'') (split_slash filename)) of
        [] \<Rightarrow> []
      | p # _ \<Rightarrow> p)"

text \<open>\<open>str.rfind('.')\<close>: the index of the last dot, \<open>-1\<close> when there is none.\<close>

fun rfind_dot :: "string \<Rightarrow> int" where
  "rfind_dot [] = -1"
| "rfind_dot (c # cs) =
     (let i = rfind_dot cs in
      if i \<ge> 0 then i + 1 else if c = CHR ''.'' then 0 else -1)"

definition suffix :: "string \<Rightarrow> string" where
  "suffix filename =
     (let nm = path_name filename; i = rfind_dot nm
      in if 0 < i \<and> i < int (length nm) - 1 then drop (nat i) nm else [])"

text \<open>The decimal digits that \<open>str.format\<close> prints for a non-negative integer.\<close>

fun str_nat :: "nat \<Rightarrow> string" where
  "str_nat n =
     (if n < 10 then [char_of (48 + n)]
      else str_nat (n div 10) @ [char_of (48 + n mod 10)])"

declare str_nat.simps [simp del]

definition exercise_image_upload_dir :: "exercise_image \<Rightarrow> string \<Rightarrow> string" where
  "exercise_image_upload_dir instance filename =
     (let ext = suffix filename
      in ''exercise-images/'' @ str_nat (exercise_base instance) @ ''/'' @ uuid instance @ ext)"

section \<open>Properties\<close>

subsection \<open>The notions the properties are stated with\<close>

text \<open>
  A table is well formed when every row has a primary key and no two rows share one.
\<close>

definition wf_table :: "exercise_image list \<Rightarrow> bool" where
  "wf_table rows = (distinct (map pk rows) \<and> None \<notin> set (map pk rows))"

text \<open>The accepted images of an exercise base, and those of them that are main.\<close>

definition accepted_images :: "exercise_image list \<Rightarrow> nat \<Rightarrow> exercise_image list" where
  "accepted_images rows b = filter (\<lambda>x. exercise_base x = b \<and> status x = STATUS_ACCEPTED) rows"

definition accepted_main_images :: "exercise_image list \<Rightarrow> nat \<Rightarrow> exercise_image list" where
  "accepted_main_images rows b =
     filter (\<lambda>x. exercise_base x = b \<and> status x = STATUS_ACCEPTED \<and> is_main x) rows"

text \<open>
  The main-image invariant of an exercise base, in the words of the specification: at most
  one accepted image of the base is main, and if the base has an accepted image, exactly
  one is.
\<close>

definition main_image_invariant :: "exercise_image list \<Rightarrow> nat \<Rightarrow> bool" where
  "main_image_invariant rows b =
     (length (accepted_main_images rows b) \<le> 1 \<and>
      (1 \<le> length (accepted_images rows b) \<longrightarrow> length (accepted_main_images rows b) = 1))"

text \<open>The cache invalidations among the events of a call.\<close>

definition cache_deletes :: "event list \<Rightarrow> event list" where
  "cache_deletes ev = filter (\<lambda>e. case e of CacheDelete f l \<Rightarrow> True | _ \<Rightarrow> False) ev"

text \<open>An image row for the examples: every field but the four given is fixed.\<close>

definition example_image :: "nat option \<Rightarrow> nat \<Rightarrow> bool \<Rightarrow> status \<Rightarrow> exercise_image" where
  "example_image i b m s =
     \<lparr>pk = i, uuid = ''1b020b3a-3732-4c7e-92fd-a0cec90ed69b'', exercise_base = b, is_main = m,
      style = PHOTO, status = s, license_author = None\<rparr>"

subsection \<open>Query sets, row operations and the cases of \<open>save\<close>\<close>

lemma ex_fields [simp]:
  "pk (example_image i b m s) = i" "exercise_base (example_image i b m s) = b"
  "is_main (example_image i b m s) = m" "status (example_image i b m s) = s"
  by (simp_all add: example_image_def)

lemma count_accepted_base:
  "count (filter_exercise_base b (accepted objects)) rows = length (accepted_images rows b)"
  by (simp add: count_def filter_exercise_base_def accepted_def objects_def accepted_images_def conj_commute)

lemma count_accepted_main:
  "count (filter_is_main True (filter_exercise_base b (accepted objects))) rows
     = length (accepted_main_images rows b)"
  by (simp add: count_def filter_is_main_def filter_exercise_base_def accepted_def objects_def
      accepted_main_images_def conj_commute conj_left_commute)

lemma max_pk_ge: "x \<in> set rows \<Longrightarrow> pk x = Some i \<Longrightarrow> i \<le> max_pk rows"
  by (induction rows) (auto split: option.splits)

lemma fresh_pk: "Some (Suc (max s (max_pk rows))) \<notin> set (map pk rows)"
proof
  assume "Some (Suc (max s (max_pk rows))) \<in> set (map pk rows)"
  then obtain x where "x \<in> set rows" "pk x = Some (Suc (max s (max_pk rows)))" by auto
  then have "Suc (max s (max_pk rows)) \<le> max_pk rows" by (rule max_pk_ge)
  then show False by simp
qed

lemma replace_count:
  "distinct (map pk rows) \<Longrightarrow> Some i \<in> set (map pk rows) \<Longrightarrow>
   length (filter P (map (\<lambda>x. if pk x = Some i then r else x) rows))
     = length (filter P (filter (\<lambda>x. pk x \<noteq> Some i) rows)) + (if P r then 1 else 0)"
proof (induction rows)
  case Nil
  then show ?case by simp
next
  case (Cons a rows)
  show ?case
  proof (cases "pk a = Some i")
    case True
    with Cons.prems have notin: "Some i \<notin> set (map pk rows)" by auto
    then have same: "map (\<lambda>x. if pk x = Some i then r else x) rows = rows"
      by (induction rows) auto
    from notin have keep: "filter (\<lambda>x. pk x \<noteq> Some i) rows = rows"
      by (induction rows) auto
    from True same keep show ?thesis by simp
  next
    case False
    with Cons.prems have "distinct (map pk rows)" "Some i \<in> set (map pk rows)" by auto
    then have "length (filter P (map (\<lambda>x. if pk x = Some i then r else x) rows))
     = length (filter P (filter (\<lambda>x. pk x \<noteq> Some i) rows)) + (if P r then 1 else 0)"
      by (rule Cons.IH)
    with False show ?thesis by simp
  qed
qed

lemma filter_pk_notin: "p \<notin> set (map pk rows) \<Longrightarrow> filter (\<lambda>x. pk x \<noteq> p) rows = rows"
  by (induction rows) auto

lemma model_save_count:
  assumes "wf_table rows"
  shows "length (filter P (snd (model_save s r rows)))
     = length (filter P (filter (\<lambda>x. pk x \<noteq> pk r) rows)) + (if P (fst (model_save s r rows)) then 1 else 0)"
proof (cases "pk r")
  case None
  from assms have "None \<notin> set (map pk rows)" by (simp add: wf_table_def)
  then have "filter (\<lambda>x. pk x \<noteq> None) rows = rows" by (rule filter_pk_notin)
  with None show ?thesis by (simp add: model_save_def Let_def)
next
  case (Some i)
  show ?thesis
  proof (cases "Some i \<in> set (map pk rows)")
    case True
    from assms have "distinct (map pk rows)" by (simp add: wf_table_def)
    from replace_count [OF this True, of P r] Some True show ?thesis
      by (simp add: model_save_def)
  next
    case False
    then have "filter (\<lambda>x. pk x \<noteq> Some i) rows = rows" by (rule filter_pk_notin)
    with Some False show ?thesis by (simp add: model_save_def)
  qed
qed

lemma model_save_wf:
  assumes "wf_table rows"
  shows "wf_table (snd (model_save s r rows))"
proof (cases "pk r")
  case None
  with assms fresh_pk [of s rows] show ?thesis
    by (simp add: model_save_def Let_def wf_table_def)
next
  case (Some i)
  have m: "map pk (map (\<lambda>x. if pk x = Some i then r else x) rows) = map pk rows"
    using Some by (induction rows) auto
  from assms Some show ?thesis
    using m by (auto simp add: model_save_def wf_table_def simp del: map_map)
qed

lemma fst_model_save:
  "fst (model_save s r rows) = r\<lparr>pk := (case pk r of None \<Rightarrow> Some (Suc (max s (max_pk rows))) | Some i \<Rightarrow> Some i)\<rparr>"
  by (cases "pk r") (simp_all add: model_save_def Let_def)

lemma update_is_main_pks: "map pk (update_is_main q v rows) = map pk rows"
  by (induction rows) (simp_all add: update_is_main_def)

lemma update_is_main_wf: "wf_table (update_is_main q v rows) = wf_table rows"
  by (simp add: wf_table_def update_is_main_pks del: set_map)

lemma update_is_main_cleared:
  "filter (\<lambda>x. exercise_base x = b \<and> Q x \<and> is_main x)
     (update_is_main (filter_exercise_base b objects) False rows) = []"
  by (induction rows) (simp_all add: update_is_main_def filter_exercise_base_def objects_def)

lemma update_is_main_cleared_mem:
  assumes "x \<in> set (update_is_main (filter_exercise_base b objects) False rows)"
    and "exercise_base x = b"
  shows "\<not> is_main x"
proof
  assume "is_main x"
  with assms have "x \<in> set (filter (\<lambda>x. exercise_base x = b \<and> True \<and> is_main x)
     (update_is_main (filter_exercise_base b objects) False rows))" by simp
  then show False by (simp only: update_is_main_cleared [of b "\<lambda>x. True"] set_simps empty_iff)
qed

lemma accepted_main_le: "length (accepted_main_images rows b) \<le> length (accepted_images rows b)"
proof -
  have "accepted_main_images rows b = filter is_main (accepted_images rows b)"
    by (simp add: accepted_main_images_def accepted_images_def conj_ac)
  then show ?thesis by simp
qed


lemma save_main:
  "is_main self \<Longrightarrow>
   save self d =
     (fst (model_save (sequence d) (self\<lparr>is_main := True\<rparr>)
            (update_is_main (filter_exercise_base (exercise_base self) objects) False (images d))),
      d\<lparr>images := snd (model_save (sequence d) (self\<lparr>is_main := True\<rparr>)
            (update_is_main (filter_exercise_base (exercise_base self) objects) False (images d))),
        sequence := advance (sequence d) (pk (fst (model_save (sequence d) (self\<lparr>is_main := True\<rparr>)
            (update_is_main (filter_exercise_base (exercise_base self) objects) False (images d)))))\<rparr>,
      [BulkUpdate (exercise_base self)] @ reset_cache (languages d)
        @ [RowSave (fst (model_save (sequence d) (self\<lparr>is_main := True\<rparr>)
            (update_is_main (filter_exercise_base (exercise_base self) objects) False (images d))))])"
  by (simp add: save_def Let_def split: prod.splits)

lemma save_forced:
  assumes "\<not> is_main self" "accepted_main_images (images d) (exercise_base self) = []"
  shows "save self d =
     (fst (model_save (sequence d) (self\<lparr>is_main := True\<rparr>) (images d)),
      d\<lparr>images := snd (model_save (sequence d) (self\<lparr>is_main := True\<rparr>) (images d)),
        sequence := advance (sequence d) (pk (fst (model_save (sequence d) (self\<lparr>is_main := True\<rparr>) (images d))))\<rparr>,
      reset_cache (languages d) @ [RowSave (fst (model_save (sequence d) (self\<lparr>is_main := True\<rparr>) (images d)))])"
  using assms
  by (simp add: save_def Let_def count_accepted_base count_accepted_main split: prod.splits)

lemma save_kept:
  assumes "\<not> is_main self" "accepted_main_images (images d) (exercise_base self) \<noteq> []"
  shows "save self d =
     (fst (model_save (sequence d) self (images d)),
      d\<lparr>images := snd (model_save (sequence d) self (images d)),
        sequence := advance (sequence d) (pk (fst (model_save (sequence d) self (images d))))\<rparr>,
      reset_cache (languages d) @ [RowSave (fst (model_save (sequence d) self (images d)))])"
proof -
  from assms(2) have m: "length (accepted_main_images (images d) (exercise_base self)) \<noteq> 0" by simp
  with accepted_main_le [of "images d" "exercise_base self"]
  have "length (accepted_images (images d) (exercise_base self)) \<noteq> 0" by linarith
  with m assms(1) show ?thesis
    by (simp add: save_def Let_def count_accepted_base count_accepted_main split: prod.splits)
qed

lemma model_save_mem: "fst (model_save s r rows) \<in> set (snd (model_save s r rows))"
proof (cases "pk r")
  case None
  then show ?thesis by (simp add: model_save_def Let_def)
next
  case (Some i)
  show ?thesis
  proof (cases "Some i \<in> set (map pk rows)")
    case True
    then obtain x where "x \<in> set rows" "pk x = Some i" by auto
    then have "r \<in> (\<lambda>x. if pk x = Some i then r else x) ` set rows" by force
    with Some True show ?thesis by (simp add: model_save_def)
  next
    case False
    with Some show ?thesis by (simp add: model_save_def)
  qed
qed

lemma save_images:
  "images (fst (snd (save self d))) =
     snd (model_save (sequence d) (if is_main self \<or> accepted_main_images (images d) (exercise_base self) = []
                      then self\<lparr>is_main := True\<rparr> else self)
                     (if is_main self
                      then update_is_main (filter_exercise_base (exercise_base self) objects) False (images d)
                      else images d))"
proof (cases "is_main self")
  case True
  then show ?thesis by (simp add: save_main)
next
  case False
  then show ?thesis
    by (cases "accepted_main_images (images d) (exercise_base self) = []")
       (simp_all add: save_forced save_kept)
qed

lemma save_instance:
  "fst (save self d) =
     fst (model_save (sequence d) (if is_main self \<or> accepted_main_images (images d) (exercise_base self) = []
                      then self\<lparr>is_main := True\<rparr> else self)
                     (if is_main self
                      then update_is_main (filter_exercise_base (exercise_base self) objects) False (images d)
                      else images d))"
proof (cases "is_main self")
  case True
  then show ?thesis by (simp add: save_main)
next
  case False
  then show ?thesis
    by (cases "accepted_main_images (images d) (exercise_base self) = []")
       (simp_all add: save_forced save_kept)
qed

lemma save_mem: "fst (save self d) \<in> set (images (fst (snd (save self d))))"
  unfolding save_images save_instance by (rule model_save_mem)

lemma save_accepted_main_count:
  assumes "wf_table (images d)"
  shows "length (accepted_main_images (images (fst (snd (save self d)))) (exercise_base self)) =
     (if is_main self \<or> accepted_main_images (images d) (exercise_base self) = []
      then (if status self = STATUS_ACCEPTED then 1 else 0)
      else length (accepted_main_images (filter (\<lambda>x. pk x \<noteq> pk self) (images d)) (exercise_base self)))"
proof -
  let ?b = "exercise_base self"
  let ?P = "\<lambda>x. exercise_base x = ?b \<and> status x = STATUS_ACCEPTED \<and> is_main x"
  show ?thesis
  proof (cases "is_main self")
    case True
    let ?rows1 = "update_is_main (filter_exercise_base ?b objects) False (images d)"
    from assms have wf1: "wf_table ?rows1" by (simp add: update_is_main_wf)
    have "filter ?P (filter (\<lambda>x. pk x \<noteq> pk self) ?rows1)
            = filter (\<lambda>x. pk x \<noteq> pk self) (filter ?P ?rows1)"
      by (simp add: conj_commute)
    also have "\<dots> = []"
      by (simp only: update_is_main_cleared filter.simps)
    finally have none: "filter ?P (filter (\<lambda>x. pk x \<noteq> pk self) ?rows1) = []" .
    from model_save_count [OF wf1, of ?P _ "self\<lparr>is_main := True\<rparr>"] none True
    show ?thesis
      by (simp add: save_images accepted_main_images_def fst_model_save)
  next
    case False
    show ?thesis
    proof (cases "accepted_main_images (images d) ?b = []")
      case True
      then have "filter ?P (images d) = []" by (simp add: accepted_main_images_def)
      then have "filter (\<lambda>x. pk x \<noteq> pk self) (filter ?P (images d)) = []" by simp
      then have none: "filter ?P (filter (\<lambda>x. pk x \<noteq> pk self) (images d)) = []"
        by (simp add: conj_commute)
      from model_save_count [OF assms, of ?P _ "self\<lparr>is_main := True\<rparr>"] none True False
      show ?thesis
        by (simp add: save_images accepted_main_images_def fst_model_save)
    next
      case nonempty: False
      from model_save_count [OF assms, of ?P _ self] nonempty False
      show ?thesis
        by (simp add: save_images accepted_main_images_def fst_model_save)
    qed
  qed
qed

lemma save_accepted_count:
  assumes "wf_table (images d)" "\<not> is_main self"
  shows "length (accepted_images (images (fst (snd (save self d)))) (exercise_base self)) =
     length (accepted_images (filter (\<lambda>x. pk x \<noteq> pk self) (images d)) (exercise_base self))
       + (if status self = STATUS_ACCEPTED then 1 else 0)"
proof -
  let ?P = "\<lambda>x. exercise_base x = exercise_base self \<and> status x = STATUS_ACCEPTED"
  show ?thesis
  proof (cases "accepted_main_images (images d) (exercise_base self) = []")
    case True
    from model_save_count [OF assms(1), of ?P _ "self\<lparr>is_main := True\<rparr>"] True assms(2)
    show ?thesis by (simp add: save_images accepted_images_def fst_model_save)
  next
    case False
    from model_save_count [OF assms(1), of ?P _ self] False assms(2)
    show ?thesis by (simp add: save_images accepted_images_def fst_model_save)
  qed
qed

lemma length_filter_filter_le: "length (filter P (filter Q xs)) \<le> length (filter P xs)"
  by (induction xs) auto

lemma singleton_list: "length xs = 1 \<Longrightarrow> x \<in> set xs \<Longrightarrow> xs = [x]"
  by (cases xs) auto

lemma save_instance_fields:
  "exercise_base (fst (save self d)) = exercise_base self \<and>
   status (fst (save self d)) = status self \<and>
   is_main (fst (save self d)) = (is_main self \<or> accepted_main_images (images d) (exercise_base self) = [])"
  by (simp add: save_instance fst_model_save)

lemma model_save_other:
  assumes "x \<in> set (snd (model_save s r rows))" "pk x \<noteq> pk (fst (model_save s r rows))"
  shows "x \<in> set rows"
proof (cases "pk r")
  case None
  with assms show ?thesis by (auto simp add: model_save_def Let_def)
next
  case (Some i)
  show ?thesis
  proof (cases "Some i \<in> set (map pk rows)")
    case True
    with Some assms have "x \<in> (\<lambda>x. if pk x = Some i then r else x) ` set rows" "pk x \<noteq> Some i"
      by (simp_all add: model_save_def)
    then obtain y where y: "y \<in> set rows" "x = (if pk y = Some i then r else y)" by blast
    show ?thesis
    proof (cases "pk y = Some i")
      case True
      with y Some \<open>pk x \<noteq> Some i\<close> show ?thesis by simp
    next
      case False
      with y show ?thesis by simp
    qed
  next
    case False
    with Some assms show ?thesis by (auto simp add: model_save_def)
  qed
qed

lemma model_save_same_pk:
  assumes "x \<in> set (snd (model_save s r rows))" "pk x = pk (fst (model_save s r rows))"
  shows "x = fst (model_save s r rows)"
proof (cases "pk r")
  case None
  from assms None have "x = r\<lparr>pk := Some (Suc (max s (max_pk rows)))\<rparr> \<or> (x \<in> set rows \<and> pk x = Some (Suc (max s (max_pk rows))))"
    by (auto simp add: model_save_def Let_def)
  moreover have "\<not> (x \<in> set rows \<and> pk x = Some (Suc (max s (max_pk rows))))"
    using fresh_pk [of s rows] by force
  ultimately show ?thesis using None by (simp add: model_save_def Let_def)
next
  case (Some i)
  show ?thesis
  proof (cases "Some i \<in> set (map pk rows)")
    case True
    with Some assms have "x \<in> (\<lambda>x. if pk x = Some i then r else x) ` set rows" "pk x = Some i"
      by (simp_all add: model_save_def)
    then obtain y where y: "y \<in> set rows" "x = (if pk y = Some i then r else y)" by blast
    have "x = r"
    proof (cases "pk y = Some i")
      case True
      with y show ?thesis by simp
    next
      case False
      with y \<open>pk x = Some i\<close> show ?thesis by simp
    qed
    with Some True show ?thesis by (simp add: model_save_def)
  next
    case False
    from assms Some False have "x = r \<or> (x \<in> set rows \<and> pk x = Some i)"
      by (auto simp add: model_save_def)
    moreover from False have "\<not> (x \<in> set rows \<and> pk x = Some i)" by force
    ultimately show ?thesis using Some False by (simp add: model_save_def)
  qed
qed

lemma update_is_main_max_pk: "max_pk (update_is_main q v rows) = max_pk rows"
  by (induction rows) (simp_all add: update_is_main_def split: option.splits)

lemma save_events:
  "snd (snd (save self d)) =
     (if is_main self then [BulkUpdate (exercise_base self)] else [])
       @ reset_cache (languages d) @ [RowSave (fst (save self d))]"
proof (cases "is_main self")
  case True
  then show ?thesis by (simp add: save_main)
next
  case False
  then show ?thesis
    by (cases "accepted_main_images (images d) (exercise_base self) = []")
       (simp_all add: save_forced save_kept)
qed

lemma accepted_main_of_accepted:
  "accepted_images rows b = [] \<Longrightarrow> accepted_main_images rows b = []"
  using accepted_main_le [of rows b] by simp

lemma accepted_images_of_base:
  "accepted_images rows b
     = filter (\<lambda>x. status x = STATUS_ACCEPTED) (filter (\<lambda>x. exercise_base x = b) rows)"
  by (simp add: accepted_images_def conj_commute)

lemma length_reset_cache: "length (reset_cache langs) = 4 * length langs"
  by (induction langs) (simp_all add: reset_cache_def)

lemma cache_deletes_reset_cache: "cache_deletes (reset_cache langs) = reset_cache langs"
  by (induction langs) (simp_all add: reset_cache_def cache_deletes_def)

lemma count_list_fragments:
  "count_list [CacheDelete n1 a, CacheDelete n2 a, CacheDelete n3 a, CacheDelete n4 a] (CacheDelete f l)
     = (if a = l then count_list [n1, n2, n3, n4] f else 0)"
  by simp

lemma count_list_names:
  "count_list [''muscle-overview'', ''exercise-overview'', ''exercise-overview-mobile'', ''equipment-overview''] f
     = (if f \<in> {''muscle-overview'', ''exercise-overview'', ''exercise-overview-mobile'', ''equipment-overview''}
        then 1 else 0)"
  by auto

lemma reset_cache_Cons:
  "reset_cache (a # langs) =
     [CacheDelete ''muscle-overview'' a, CacheDelete ''exercise-overview'' a,
      CacheDelete ''exercise-overview-mobile'' a, CacheDelete ''equipment-overview'' a] @ reset_cache langs"
  by (simp add: reset_cache_def)

lemma count_list_reset_cache:
  "count_list (reset_cache langs) (CacheDelete f l) =
     (if f \<in> {''muscle-overview'', ''exercise-overview'', ''exercise-overview-mobile'', ''equipment-overview''}
      then count_list langs l else 0)"
proof (induction langs)
  case Nil
  then show ?case by (simp add: reset_cache_def)
next
  case (Cons a langs)
  define k :: nat where
    "k = (if f \<in> {''muscle-overview'', ''exercise-overview'', ''exercise-overview-mobile'',
            ''equipment-overview''} then 1 else 0)"
  have names: "count_list [''muscle-overview'', ''exercise-overview'',
                ''exercise-overview-mobile'', ''equipment-overview''] f = k"
    unfolding k_def by (rule count_list_names)
  have step: "count_list (reset_cache (a # langs)) (CacheDelete f l)
          = (if a = l then k else 0) + count_list (reset_cache langs) (CacheDelete f l)"
    by (simp only: reset_cache_Cons count_list_append count_list_fragments names)
  have ih: "count_list (reset_cache langs) (CacheDelete f l) = (if k = 1 then count_list langs l else 0)"
    unfolding k_def using Cons.IH by (simp split: if_splits)
  have "count_list (reset_cache (a # langs)) (CacheDelete f l)
          = (if k = 1 then count_list (a # langs) l else 0)"
  proof (cases "k = 1")
    case True
    with step ih show ?thesis by simp
  next
    case False
    then have "k = 0" unfolding k_def by (simp split: if_splits)
    with step ih show ?thesis by simp
  qed
  then show ?case unfolding k_def by (simp split: if_splits)
qed

lemma cache_deletes_save: "cache_deletes (snd (snd (save self d))) = reset_cache (languages d)"
proof -
  have "cache_deletes (snd (snd (save self d)))
          = cache_deletes (reset_cache (languages d))"
    by (simp add: save_events cache_deletes_def)
  then show ?thesis by (simp only: cache_deletes_reset_cache)
qed

lemma fetch_nonempty: "count q rows \<noteq> 0 \<Longrightarrow> fetch q rows \<noteq> []"
proof -
  assume "count q rows \<noteq> 0"
  then have "length (fetch q rows) \<noteq> 0" by (simp add: count_def fetch_def)
  then show ?thesis by simp
qed

lemma delete_events:
  assumes "pk self = Some i"
  shows "\<exists>d' nested. delete self d = Inr (d', RowDelete i # reset_cache (languages d) @ nested)
           \<and> (nested = [] \<or> (\<exists>img. nested = snd (snd (save img (d\<lparr>images := model_delete i (images d)\<rparr>)))))"
proof -
  let ?d1 = "d\<lparr>images := model_delete i (images d)\<rparr>"
  let ?q = "filter_is_main False (filter_exercise_base (exercise_base self) (accepted objects))"
  let ?c = "\<not> (count (filter_is_main True (filter_exercise_base (exercise_base self) (accepted objects))) (images ?d1) \<noteq> 0)
                 \<and> count ?q (images ?d1) \<noteq> 0"
  show ?thesis
  proof (cases ?c)
    case True
    then have "fetch ?q (images ?d1) \<noteq> []" by (simp add: fetch_nonempty)
    then obtain img rest where f: "fetch ?q (images ?d1) = img # rest"
      by (cases "fetch ?q (images ?d1)") auto
    obtain a b c where s: "save (img\<lparr>is_main := True\<rparr>) ?d1 = (a, b, c)"
      by (cases "save (img\<lparr>is_main := True\<rparr>) ?d1") auto
    from assms True f s have "delete self d = Inr (b, RowDelete i # reset_cache (languages d) @ c)"
      by (simp add: delete_def Let_def)
    moreover from s have "c = snd (snd (save (img\<lparr>is_main := True\<rparr>) ?d1))" by simp
    ultimately show ?thesis by blast
  next
    case False
    with assms have "delete self d = Inr (?d1, RowDelete i # reset_cache (languages d) @ [])"
      by (auto simp add: delete_def Let_def)
    then show ?thesis by blast
  qed
qed

lemma wf_table_filter: "wf_table rows \<Longrightarrow> wf_table (filter P rows)"
proof -
  assume "wf_table rows"
  then have "distinct (map pk rows)" "None \<notin> set (map pk rows)" by (simp_all add: wf_table_def)
  then have "distinct (map pk (filter P rows))" "None \<notin> set (map pk (filter P rows))"
    by (auto simp add: distinct_map_filter)
  then show ?thesis by (simp add: wf_table_def)
qed

lemma fetch_objects_filter: "filter q (fetch objects rows) = fetch q rows"
  by (simp add: fetch_def objects_def filter_sort)

lemma fetch_first:
  assumes "fetch q rows = y # ys"
  shows "y \<in> set rows \<and> q y \<and> (\<forall>x \<in> set rows. q x \<longrightarrow> ordering y \<le> ordering x)"
proof -
  from assms have "set (y # ys) = set (sort_key ordering (filter q rows))"
    by (simp only: fetch_def)
  then have s: "set (y # ys) = set (filter q rows)" by (simp only: set_sort)
  have "sorted (map ordering (sort_key ordering (filter q rows)))" by (rule sorted_sort_key)
  with assms have "sorted (map ordering (y # ys))" by (simp add: fetch_def)
  then have le: "\<forall>x \<in> set (y # ys). ordering y \<le> ordering x" by auto
  from s have "y \<in> set (filter q rows)" by auto
  with s le show ?thesis by auto
qed

lemma ordering_non_main:
  "\<not> is_main x \<Longrightarrow> \<not> is_main y \<Longrightarrow> ordering y \<le> ordering x \<longleftrightarrow> pk y \<le> pk x"
  by (simp add: ordering_def)

lemma model_save_update:
  assumes "pk r = Some j" "Some j \<in> set (map pk rows)"
  shows "model_save s r rows = (r, map (\<lambda>x. if pk x = Some j then r else x) rows)"
  using assms by (simp add: model_save_def)

lemma accepted_split:
  "length (accepted_images rows b)
     = length (accepted_main_images rows b)
       + count (\<lambda>x. exercise_base x = b \<and> status x = STATUS_ACCEPTED \<and> \<not> is_main x) rows"
  by (induction rows) (simp_all add: count_def accepted_images_def accepted_main_images_def)

text \<open>
  Well-formedness is kept by both hooks, so it holds in every table that calls of
  \<open>save\<close> and \<open>delete\<close> build from the empty one.
\<close>

lemma save_wf: "wf_table (images d) \<Longrightarrow> wf_table (images (fst (snd (save self d))))"
  unfolding save_images by (cases "is_main self") (simp_all add: model_save_wf update_is_main_wf)

lemma delete_wf:
  assumes "wf_table (images d)" "delete self d = Inr (d', ev)"
  shows "wf_table (images d')"
proof (cases "pk self")
  case None
  with assms(2) show ?thesis by (simp add: delete_def)
next
  case (Some i)
  let ?d1 = "d\<lparr>images := model_delete i (images d)\<rparr>"
  let ?q = "filter_is_main False (filter_exercise_base (exercise_base self) (accepted objects))"
  from assms(1) have wf1: "wf_table (images ?d1)"
    by (simp add: model_delete_def wf_table_filter)
  show ?thesis
  proof (cases "\<not> (count (filter_is_main True (filter_exercise_base (exercise_base self) (accepted objects))) (images ?d1) \<noteq> 0)
                 \<and> count ?q (images ?d1) \<noteq> 0")
    case True
    then have "fetch ?q (images ?d1) \<noteq> []" by (simp add: fetch_nonempty)
    then obtain img rest where f: "fetch ?q (images ?d1) = img # rest"
      by (cases "fetch ?q (images ?d1)") auto
    obtain a b c where s: "save (img\<lparr>is_main := True\<rparr>) ?d1 = (a, b, c)"
      by (cases "save (img\<lparr>is_main := True\<rparr>) ?d1") auto
    from Some True f s have "delete self d = Inr (b, RowDelete i # reset_cache (languages d) @ c)"
      by (simp add: delete_def Let_def)
    with assms(2) have "d' = b" by simp
    moreover from s have "b = fst (snd (save (img\<lparr>is_main := True\<rparr>) ?d1))" by simp
    moreover from wf1 have "wf_table (images (fst (snd (save (img\<lparr>is_main := True\<rparr>) ?d1))))"
      by (rule save_wf)
    ultimately show ?thesis by simp
  next
    case False
    with Some have "delete self d = Inr (?d1, RowDelete i # reset_cache (languages d))"
      by (auto simp add: delete_def Let_def)
    with assms(2) have "d' = ?d1" by simp
    with wf1 show ?thesis by simp
  qed
qed

text \<open>Every call of \<open>set_author\<close> for a user without the permission raises.\<close>

lemma set_author_untrusted_raises:
  assumes "\<not> has_perm (request_user r) ''exercises.add_exerciseimage''"
  shows "set_author transport_ok self r =
           Inl (AttributeError,
                self\<lparr>license_author := (if truthy (license_author self) then license_author self
                                           else Some (username (request_user r)))\<rparr>)"
  using assms by (simp add: set_author_def Let_def attr_name_def)

subsection \<open>Paths and hosts\<close>

lemma split_slash_no_slash: "CHR ''/'' \<notin> set s \<Longrightarrow> split_slash s = [s]"
  by (induction s) auto

lemma split_slash_chars: "p \<in> set (split_slash s) \<Longrightarrow> set p \<subseteq> set s"
proof (induction s arbitrary: p)
  case Nil
  then show ?case by simp
next
  case (Cons c cs)
  show ?case
  proof (cases "c = CHR ''/''")
    case True
    with Cons show ?thesis by auto
  next
    case False
    show ?thesis
    proof (cases "split_slash cs")
      case Nil
      with False Cons.prems show ?thesis by simp
    next
      case (Cons q qs)
      with False Cons.prems Cons.IH [of q] Cons.IH [of p] show ?thesis
        by auto
    qed
  qed
qed

lemma path_name_chars: "set (path_name s) \<subseteq> set s"
proof (cases "rev (filter (\<lambda>p. p \<noteq> [] \<and> p \<noteq> ''.'') (split_slash s))")
  case Nil
  then show ?thesis by (simp add: path_name_def)
next
  case (Cons p ps)
  then have "p \<in> set (rev (filter (\<lambda>p. p \<noteq> [] \<and> p \<noteq> ''.'') (split_slash s)))" by simp
  then have "p \<in> set (split_slash s)" by simp
  then have "set p \<subseteq> set s" by (rule split_slash_chars)
  with Cons show ?thesis by (simp add: path_name_def)
qed

lemma rfind_dot_none: "CHR ''.'' \<notin> set s \<Longrightarrow> rfind_dot s = -1"
  by (induction s) (auto simp add: Let_def)

lemma rfind_dot_last: "CHR ''.'' \<notin> set e \<Longrightarrow> rfind_dot (stem @ CHR ''.'' # e) = int (length stem)"
  by (induction stem) (auto simp add: Let_def rfind_dot_none)

lemma suffix_extension:
  assumes "stem \<noteq> []" "e \<noteq> []" "CHR ''/'' \<notin> set (stem @ e)" "CHR ''.'' \<notin> set e"
  shows "suffix (stem @ ''.'' @ e) = ''.'' @ e"
proof -
  let ?f = "stem @ CHR ''.'' # e"
  from assms(3) have "CHR ''/'' \<notin> set ?f" by simp
  then have "split_slash ?f = [?f]" by (rule split_slash_no_slash)
  moreover from assms(1) have "?f \<noteq> ''.''" by (cases stem) simp_all
  ultimately have nm: "path_name ?f = ?f" by (simp add: path_name_def)
  from assms(4) have i: "rfind_dot ?f = int (length stem)" by (rule rfind_dot_last)
  from assms(1,2) have "0 < int (length stem) \<and> int (length stem) < int (length ?f) - 1"
    by (cases e) simp_all
  with nm i show ?thesis by (simp add: suffix_def Let_def)
qed

lemma suffix_no_dot:
  assumes "CHR ''.'' \<notin> set filename"
  shows "suffix filename = []"
proof -
  from assms path_name_chars [of filename] have "CHR ''.'' \<notin> set (path_name filename)" by blast
  then have "rfind_dot (path_name filename) = -1" by (rule rfind_dot_none)
  then show ?thesis by (simp add: suffix_def Let_def)
qed

lemma split_colon_0_port: "CHR '':'' \<notin> set domain \<Longrightarrow> split_colon_0 (domain @ CHR '':'' # port) = domain"
  by (induction domain) (auto simp add: split_colon_0_def)

lemma split_colon_0_plain: "CHR '':'' \<notin> set domain \<Longrightarrow> split_colon_0 domain = domain"
  by (induction domain) (auto simp add: split_colon_0_def)

subsection \<open>The main-image invariant after \<open>save\<close>\<close>

text \<open>
  C1, as the code has it. Saving a record into a well-formed table:
  at most one accepted image of the record's base is main afterwards, when the record is
  submitted as main or when that held before;
  when the record is accepted and either is submitted as main or the base had no accepted
  main image, the saved record is afterwards the one accepted main image of its base, so
  the invariant holds;
  and a record submitted as not main, whose stored row is not the accepted main image of
  the base, keeps the invariant.
\<close>

theorem save_main_image_invariant:
  assumes "wf_table (images d)"
  shows "(is_main self \<or> length (accepted_main_images (images d) (exercise_base self)) \<le> 1
            \<longrightarrow> length (accepted_main_images (images (fst (snd (save self d)))) (exercise_base self)) \<le> 1)
       \<and> (status self = STATUS_ACCEPTED
            \<and> (is_main self \<or> accepted_main_images (images d) (exercise_base self) = [])
            \<longrightarrow> accepted_main_images (images (fst (snd (save self d)))) (exercise_base self)
                  = [fst (save self d)]
                \<and> main_image_invariant (images (fst (snd (save self d)))) (exercise_base self))
       \<and> (\<not> is_main self \<and> main_image_invariant (images d) (exercise_base self)
            \<and> (\<forall>x \<in> set (accepted_main_images (images d) (exercise_base self)). pk x \<noteq> pk self)
            \<longrightarrow> main_image_invariant (images (fst (snd (save self d)))) (exercise_base self))"
proof -
  let ?b = "exercise_base self"
  let ?rows' = "images (fst (snd (save self d)))"
  note cnt = save_accepted_main_count [OF assms, of self]
  have le: "length (accepted_main_images (filter (\<lambda>x. pk x \<noteq> pk self) (images d)) ?b)
              \<le> length (accepted_main_images (images d) ?b)"
    unfolding accepted_main_images_def by (rule length_filter_filter_le)
  have part1: "is_main self \<or> length (accepted_main_images (images d) ?b) \<le> 1
                 \<longrightarrow> length (accepted_main_images ?rows' ?b) \<le> 1"
    using cnt le by (auto split: if_splits)
  have part2: "status self = STATUS_ACCEPTED
            \<and> (is_main self \<or> accepted_main_images (images d) ?b = [])
            \<longrightarrow> accepted_main_images ?rows' ?b = [fst (save self d)]
                \<and> main_image_invariant ?rows' ?b"
  proof (intro impI)
    assume a: "status self = STATUS_ACCEPTED
            \<and> (is_main self \<or> accepted_main_images (images d) ?b = [])"
    with cnt have one: "length (accepted_main_images ?rows' ?b) = 1" by simp
    have "fst (save self d) \<in> set (accepted_main_images ?rows' ?b)"
      using a save_mem [of self d] save_instance_fields [of self d]
      by (simp add: accepted_main_images_def)
    with one have "accepted_main_images ?rows' ?b = [fst (save self d)]"
      by (rule singleton_list)
    with one show "accepted_main_images ?rows' ?b = [fst (save self d)]
                \<and> main_image_invariant ?rows' ?b"
      by (simp add: main_image_invariant_def)
  qed
  have part3: "\<not> is_main self \<and> main_image_invariant (images d) ?b
            \<and> (\<forall>x \<in> set (accepted_main_images (images d) ?b). pk x \<noteq> pk self)
            \<longrightarrow> main_image_invariant ?rows' ?b"
  proof (intro impI)
    assume a: "\<not> is_main self \<and> main_image_invariant (images d) ?b
            \<and> (\<forall>x \<in> set (accepted_main_images (images d) ?b). pk x \<noteq> pk self)"
    then have nm: "\<not> is_main self" and inv: "main_image_invariant (images d) ?b"
      and other: "\<forall>x \<in> set (accepted_main_images (images d) ?b). pk x \<noteq> pk self" by simp_all
    note acc = save_accepted_count [OF assms nm]
    show "main_image_invariant ?rows' ?b"
    proof (cases "accepted_main_images (images d) ?b = []")
      case True
      with inv have "length (accepted_images (images d) ?b) = 0"
        by (cases "accepted_images (images d) ?b") (simp_all add: main_image_invariant_def)
      moreover have "length (accepted_images (filter (\<lambda>x. pk x \<noteq> pk self) (images d)) ?b)
              \<le> length (accepted_images (images d) ?b)"
        unfolding accepted_images_def by (rule length_filter_filter_le)
      ultimately have "length (accepted_images (filter (\<lambda>x. pk x \<noteq> pk self) (images d)) ?b) = 0"
        by simp
      with acc cnt True nm show ?thesis
        by (simp add: main_image_invariant_def)
    next
      case False
      from other have "filter (\<lambda>x. pk x \<noteq> pk self) (accepted_main_images (images d) ?b)
                         = accepted_main_images (images d) ?b"
        by (simp only: filter_id_conv)
      then have "accepted_main_images (filter (\<lambda>x. pk x \<noteq> pk self) (images d)) ?b
                   = accepted_main_images (images d) ?b"
        by (simp add: accepted_main_images_def conj_commute)
      moreover from inv False have "length (accepted_main_images (images d) ?b) = 1"
        by (cases "accepted_main_images (images d) ?b") (auto simp add: main_image_invariant_def)
      ultimately show ?thesis using cnt nm False
        by (simp add: main_image_invariant_def)
    qed
  qed
  from part1 part2 part3 show ?thesis by (intro conjI)
qed

text \<open>
  The claim as stated fails: a first, accepted image of base 7 is saved and becomes main;
  then a pending image of the same base is saved with the main flag set. The bulk update
  clears the accepted image, the pending one is main, and the base has an accepted image
  but no accepted main image.
\<close>

theorem save_main_image_invariant_counterexample:
  "\<not> main_image_invariant
       (images (fst (snd (save (example_image None 7 True STATUS_PENDING)
          (fst (snd (save (example_image None 7 False STATUS_ACCEPTED)
             \<lparr>images = [], languages = [1], sequence = 0\<rparr>))))))) 7"
  by (simp add: save_def Let_def model_save_def update_is_main_def count_def
      filter_exercise_base_def filter_is_main_def accepted_def objects_def
      main_image_invariant_def accepted_images_def accepted_main_images_def example_image_def)

theorem save_main_image_invariant_witness:
  "wf_table [example_image (Some 1) 7 True STATUS_ACCEPTED]
   \<and> accepted_main_images
        (images (fst (snd (save (example_image None 7 True STATUS_ACCEPTED)
           \<lparr>images = [example_image (Some 1) 7 True STATUS_ACCEPTED], languages = [1], sequence = 1\<rparr>)))) 7
       = [fst (save (example_image None 7 True STATUS_ACCEPTED)
           \<lparr>images = [example_image (Some 1) 7 True STATUS_ACCEPTED], languages = [1], sequence = 1\<rparr>)]
   \<and> main_image_invariant
        (images (fst (snd (save (example_image None 7 True STATUS_ACCEPTED)
           \<lparr>images = [example_image (Some 1) 7 True STATUS_ACCEPTED], languages = [1], sequence = 1\<rparr>)))) 7
   \<and> main_image_invariant
        (images (fst (snd (save (example_image None 7 False STATUS_ACCEPTED)
           \<lparr>images = [example_image (Some 1) 7 True STATUS_ACCEPTED], languages = [1], sequence = 1\<rparr>)))) 7"
proof -
  let ?d = "\<lparr>images = [example_image (Some 1) 7 True STATUS_ACCEPTED], languages = [1], sequence = 1\<rparr>"
  have wf: "wf_table (images ?d)" by (simp add: wf_table_def)
  have inv: "main_image_invariant (images ?d) 7"
    by (simp add: main_image_invariant_def accepted_main_images_def accepted_images_def)
  have am: "accepted_main_images (images ?d) 7 = [example_image (Some 1) 7 True STATUS_ACCEPTED]"
    by (simp add: accepted_main_images_def)
  from save_main_image_invariant [OF wf, of "example_image None 7 True STATUS_ACCEPTED"]
  have a: "accepted_main_images
        (images (fst (snd (save (example_image None 7 True STATUS_ACCEPTED) ?d)))) 7
       = [fst (save (example_image None 7 True STATUS_ACCEPTED) ?d)]
     \<and> main_image_invariant
        (images (fst (snd (save (example_image None 7 True STATUS_ACCEPTED) ?d)))) 7"
    by simp
  from save_main_image_invariant [OF wf, of "example_image None 7 False STATUS_ACCEPTED"] inv am
  have b: "main_image_invariant
        (images (fst (snd (save (example_image None 7 False STATUS_ACCEPTED) ?d)))) 7"
    by simp
  from wf a b show ?thesis by simp
qed

subsection \<open>What \<open>save\<close> does to the main flag\<close>

text \<open>
  C3. When the exercise base of a record has no image in the table, \<open>save\<close> leaves the
  record main and persists it so, whatever flag \<open>m\<close> it was submitted with; a new record
  (one without a primary key) gets a key that no row of the table has.
\<close>

theorem save_first_image_is_main:
  assumes "filter (\<lambda>x. exercise_base x = exercise_base self) (images d) = []"
  shows "is_main (fst (save (self\<lparr>is_main := m\<rparr>) d))
       \<and> fst (save (self\<lparr>is_main := m\<rparr>) d) \<in> set (images (fst (snd (save (self\<lparr>is_main := m\<rparr>) d))))
       \<and> (\<forall>x \<in> set (images (fst (snd (save (self\<lparr>is_main := m\<rparr>) d)))).
             pk x = pk (fst (save (self\<lparr>is_main := m\<rparr>) d)) \<longrightarrow> is_main x)
       \<and> (pk self = None \<longrightarrow>
             pk (fst (save (self\<lparr>is_main := m\<rparr>) d)) \<noteq> None
             \<and> pk (fst (save (self\<lparr>is_main := m\<rparr>) d)) \<notin> set (map pk (images d)))"
proof -
  let ?s = "self\<lparr>is_main := m\<rparr>"
  have "accepted_main_images (images d) (exercise_base self)
          = filter (\<lambda>x. status x = STATUS_ACCEPTED \<and> is_main x)
              (filter (\<lambda>x. exercise_base x = exercise_base self) (images d))"
    by (simp add: accepted_main_images_def conj_commute conj_left_commute)
  with assms have none: "accepted_main_images (images d) (exercise_base ?s) = []" by simp
  with save_instance_fields [of ?s d] have main: "is_main (fst (save ?s d))" by simp
  have mem: "fst (save ?s d) \<in> set (images (fst (snd (save ?s d))))" by (rule save_mem)
  have same: "\<forall>x \<in> set (images (fst (snd (save ?s d)))). pk x = pk (fst (save ?s d)) \<longrightarrow> is_main x"
  proof (intro ballI impI)
    fix x
    assume "x \<in> set (images (fst (snd (save ?s d))))" "pk x = pk (fst (save ?s d))"
    then have "x = fst (save ?s d)"
      unfolding save_images save_instance by (rule model_save_same_pk)
    with main show "is_main x" by simp
  qed
  have new: "pk self = None \<longrightarrow>
             pk (fst (save ?s d)) \<noteq> None \<and> pk (fst (save ?s d)) \<notin> set (map pk (images d))"
  proof
    assume "pk self = None"
    then have "pk (fst (save ?s d)) = Some (Suc (max (sequence d) (max_pk (images d))))"
      using none by (cases m) (simp_all add: save_instance fst_model_save update_is_main_max_pk)
    with fresh_pk [of "sequence d" "images d"]
    show "pk (fst (save ?s d)) \<noteq> None \<and> pk (fst (save ?s d)) \<notin> set (map pk (images d))"
      by simp
  qed
  from main mem same new show ?thesis by (intro conjI)
qed

theorem save_first_image_is_main_witness:
  "filter (\<lambda>x. exercise_base x = 7) [example_image (Some 1) 3 True STATUS_ACCEPTED] = []
   \<and> is_main (fst (save (example_image None 7 False STATUS_PENDING)
         \<lparr>images = [example_image (Some 1) 3 True STATUS_ACCEPTED], languages = [1, 2], sequence = 1\<rparr>))
   \<and> is_main (fst (save (example_image None 7 True STATUS_PENDING)
         \<lparr>images = [example_image (Some 1) 3 True STATUS_ACCEPTED], languages = [1, 2], sequence = 1\<rparr>))
   \<and> pk (fst (save (example_image None 7 False STATUS_PENDING)
         \<lparr>images = [example_image (Some 1) 3 True STATUS_ACCEPTED], languages = [1, 2], sequence = 1\<rparr>))
       \<noteq> Some 1"
proof -
  let ?d = "\<lparr>images = [example_image (Some 1) 3 True STATUS_ACCEPTED], languages = [1, 2], sequence = 1\<rparr>"
  have h: "filter (\<lambda>x. exercise_base x = exercise_base (example_image None 7 False STATUS_PENDING))
             (images ?d) = []"
    by simp
  have n: "pk (example_image None 7 False STATUS_PENDING) = None" by simp
  from save_first_image_is_main [OF h, of False] save_first_image_is_main [OF h, of True] n
  show ?thesis
    by (simp add: example_image_def)
qed

text \<open>
  C4. Saving a record submitted as main: the record is persisted as main, every other row
  of its exercise base is not main afterwards, and the call issues one bulk update, before
  the cache invalidation and the row's save. In the example the second image of a base is
  saved as main and the first, main until then, is cleared.
\<close>

theorem save_main_clears_others:
  assumes "is_main self"
  shows "is_main (fst (save self d))
       \<and> fst (save self d) \<in> set (images (fst (snd (save self d))))
       \<and> (\<forall>x \<in> set (images (fst (snd (save self d)))).
             exercise_base x = exercise_base self \<and> pk x \<noteq> pk (fst (save self d)) \<longrightarrow> \<not> is_main x)
       \<and> (\<forall>x \<in> set (images (fst (snd (save self d)))).
             pk x = pk (fst (save self d)) \<longrightarrow> x = fst (save self d))
       \<and> snd (snd (save self d))
            = BulkUpdate (exercise_base self) # reset_cache (languages d) @ [RowSave (fst (save self d))]"
proof -
  let ?rows1 = "update_is_main (filter_exercise_base (exercise_base self) objects) False (images d)"
  let ?r1 = "self\<lparr>is_main := True\<rparr>"
  from assms have inst: "fst (save self d) = fst (model_save (sequence d) ?r1 ?rows1)"
    and rows: "images (fst (snd (save self d))) = snd (model_save (sequence d) ?r1 ?rows1)"
    by (simp_all add: save_main)
  from assms save_instance_fields [of self d] have main: "is_main (fst (save self d))" by simp
  have mem: "fst (save self d) \<in> set (images (fst (snd (save self d))))" by (rule save_mem)
  have others: "\<forall>x \<in> set (images (fst (snd (save self d)))).
             exercise_base x = exercise_base self \<and> pk x \<noteq> pk (fst (save self d)) \<longrightarrow> \<not> is_main x"
  proof (intro ballI impI)
    fix x
    assume x: "x \<in> set (images (fst (snd (save self d))))"
      and "exercise_base x = exercise_base self \<and> pk x \<noteq> pk (fst (save self d))"
    then have b: "exercise_base x = exercise_base self" and p: "pk x \<noteq> pk (fst (save self d))"
      by simp_all
    from x p have "x \<in> set ?rows1" unfolding rows inst by (rule model_save_other)
    from this b show "\<not> is_main x" by (rule update_is_main_cleared_mem)
  qed
  have same: "\<forall>x \<in> set (images (fst (snd (save self d)))).
             pk x = pk (fst (save self d)) \<longrightarrow> x = fst (save self d)"
  proof (intro ballI impI)
    fix x
    assume "x \<in> set (images (fst (snd (save self d))))" "pk x = pk (fst (save self d))"
    then show "x = fst (save self d)" unfolding rows inst by (rule model_save_same_pk)
  qed
  from assms have ev: "snd (snd (save self d))
            = BulkUpdate (exercise_base self) # reset_cache (languages d) @ [RowSave (fst (save self d))]"
    by (simp add: save_events)
  from main mem others same ev show ?thesis by (intro conjI)
qed

theorem save_main_clears_others_witness:
  "is_main (example_image (Some 2) 7 True STATUS_ACCEPTED)
   \<and> is_main (fst (save (example_image (Some 2) 7 True STATUS_ACCEPTED)
        \<lparr>images = [example_image (Some 1) 7 True STATUS_ACCEPTED,
                    example_image (Some 2) 7 False STATUS_ACCEPTED], languages = [1], sequence = 2\<rparr>))
   \<and> snd (snd (save (example_image (Some 2) 7 True STATUS_ACCEPTED)
        \<lparr>images = [example_image (Some 1) 7 True STATUS_ACCEPTED,
                    example_image (Some 2) 7 False STATUS_ACCEPTED], languages = [1], sequence = 2\<rparr>))
       = BulkUpdate 7 # reset_cache [1] @ [RowSave (fst (save (example_image (Some 2) 7 True STATUS_ACCEPTED)
        \<lparr>images = [example_image (Some 1) 7 True STATUS_ACCEPTED,
                    example_image (Some 2) 7 False STATUS_ACCEPTED], languages = [1], sequence = 2\<rparr>))]
   \<and> images (fst (snd (save (example_image (Some 2) 7 True STATUS_ACCEPTED)
        \<lparr>images = [example_image (Some 1) 7 True STATUS_ACCEPTED,
                    example_image (Some 2) 7 False STATUS_ACCEPTED], languages = [1], sequence = 2\<rparr>)))
       = [example_image (Some 1) 7 False STATUS_ACCEPTED, example_image (Some 2) 7 True STATUS_ACCEPTED]"
proof -
  let ?d = "\<lparr>images = [example_image (Some 1) 7 True STATUS_ACCEPTED,
                    example_image (Some 2) 7 False STATUS_ACCEPTED], languages = [1], sequence = 2\<rparr>"
  have h: "is_main (example_image (Some 2) 7 True STATUS_ACCEPTED)" by simp
  have rows: "images (fst (snd (save (example_image (Some 2) 7 True STATUS_ACCEPTED) ?d)))
       = [example_image (Some 1) 7 False STATUS_ACCEPTED, example_image (Some 2) 7 True STATUS_ACCEPTED]"
    by (simp add: save_def Let_def model_save_def update_is_main_def
        filter_exercise_base_def objects_def example_image_def)
  from save_main_clears_others [OF h, of ?d] h rows show ?thesis by simp
qed

text \<open>
  C10. A record submitted as not main whose exercise base has no accepted image is
  made main by \<open>save\<close> whatever its own status, which \<open>save\<close> leaves as it is; when no
  image of the base was main before, the record is afterwards the only main image of the
  base. In the example the record is pending.
\<close>

theorem save_promotes_non_accepted:
  assumes "\<not> is_main self" "accepted_images (images d) (exercise_base self) = []"
  shows "is_main (fst (save self d))
       \<and> status (fst (save self d)) = status self
       \<and> fst (save self d) \<in> set (images (fst (snd (save self d))))
       \<and> (wf_table (images d)
            \<and> filter (\<lambda>x. exercise_base x = exercise_base self \<and> is_main x) (images d) = []
          \<longrightarrow> filter (\<lambda>x. exercise_base x = exercise_base self \<and> is_main x)
                 (images (fst (snd (save self d)))) = [fst (save self d)])"
proof -
  let ?b = "exercise_base self"
  let ?P = "\<lambda>x. exercise_base x = ?b \<and> is_main x"
  from assms(2) have none: "accepted_main_images (images d) ?b = []"
    by (rule accepted_main_of_accepted)
  with save_instance_fields [of self d]
  have main: "is_main (fst (save self d))" and st: "status (fst (save self d)) = status self"
    and base: "exercise_base (fst (save self d)) = ?b"
    by simp_all
  have mem: "fst (save self d) \<in> set (images (fst (snd (save self d))))" by (rule save_mem)
  have sole: "wf_table (images d) \<and> filter ?P (images d) = []
          \<longrightarrow> filter ?P (images (fst (snd (save self d)))) = [fst (save self d)]"
  proof (intro impI)
    assume a: "wf_table (images d) \<and> filter ?P (images d) = []"
    then have wf: "wf_table (images d)" and nomain: "filter ?P (images d) = []" by simp_all
    from nomain have "filter (\<lambda>x. pk x \<noteq> pk (self\<lparr>is_main := True\<rparr>)) (filter ?P (images d)) = []"
      by simp
    then have z: "filter ?P (filter (\<lambda>x. pk x \<noteq> pk (self\<lparr>is_main := True\<rparr>)) (images d)) = []"
      by (simp add: conj_commute)
    from assms(1) none have rows: "images (fst (snd (save self d)))
        = snd (model_save (sequence d) (self\<lparr>is_main := True\<rparr>) (images d))"
      and inst: "fst (save self d) = fst (model_save (sequence d) (self\<lparr>is_main := True\<rparr>) (images d))"
      by (simp_all add: save_forced)
    from model_save_count [OF wf, of ?P _ "self\<lparr>is_main := True\<rparr>"] z main base
    have "length (filter ?P (images (fst (snd (save self d))))) = 1"
      by (simp add: rows inst [symmetric])
    moreover from mem main base have "fst (save self d) \<in> set (filter ?P (images (fst (snd (save self d)))))"
      by simp
    ultimately show "filter ?P (images (fst (snd (save self d)))) = [fst (save self d)]"
      by (rule singleton_list)
  qed
  from main st mem sole show ?thesis by (intro conjI)
qed

theorem save_promotes_non_accepted_witness:
  "\<not> is_main (example_image None 7 False STATUS_PENDING)
   \<and> accepted_images [] 7 = []
   \<and> wf_table []
   \<and> is_main (fst (save (example_image None 7 False STATUS_PENDING) \<lparr>images = [], languages = [1], sequence = 0\<rparr>))
   \<and> status (fst (save (example_image None 7 False STATUS_PENDING) \<lparr>images = [], languages = [1], sequence = 0\<rparr>))
       = STATUS_PENDING
   \<and> filter (\<lambda>x. exercise_base x = 7 \<and> is_main x)
        (images (fst (snd (save (example_image None 7 False STATUS_PENDING) \<lparr>images = [], languages = [1], sequence = 0\<rparr>))))
       = [fst (save (example_image None 7 False STATUS_PENDING) \<lparr>images = [], languages = [1], sequence = 0\<rparr>)]"
proof -
  let ?d = "\<lparr>images = [], languages = [1], sequence = 0\<rparr>"
  have h1: "\<not> is_main (example_image None 7 False STATUS_PENDING)" by simp
  have h2: "accepted_images (images ?d) (exercise_base (example_image None 7 False STATUS_PENDING)) = []"
    by (simp add: accepted_images_def)
  from save_promotes_non_accepted [OF h1 h2] show ?thesis
    by (simp add: accepted_images_def wf_table_def)
qed

subsection \<open>Repair on \<open>delete\<close>\<close>

text \<open>
  C5. Deleting a persisted record from a well-formed table, when the exercise base then
  still has an accepted image and no accepted main image: the first accepted image of the
  base that is not main, in the default order of the remaining rows, is saved with the main
  flag set through \<open>save\<close>. It has the least id among the accepted images of the base,
  it is afterwards the only main image of the base, and no other row changes but for main
  flags of the base that \<open>save\<close> clears.
\<close>

theorem delete_promotes_first_accepted:
  assumes "wf_table (images d)" and "pk self = Some i"
    and "accepted_images (filter (\<lambda>x. pk x \<noteq> Some i) (images d)) (exercise_base self) \<noteq> []"
    and "accepted_main_images (filter (\<lambda>x. pk x \<noteq> Some i) (images d)) (exercise_base self) = []"
  shows "\<exists>img rest d'.
           filter (\<lambda>x. exercise_base x = exercise_base self \<and> status x = STATUS_ACCEPTED \<and> \<not> is_main x)
             (fetch objects (filter (\<lambda>x. pk x \<noteq> Some i) (images d))) = img # rest
         \<and> img \<in> set (images d) \<and> pk img \<noteq> Some i
         \<and> (\<forall>x \<in> set (accepted_images (filter (\<lambda>x. pk x \<noteq> Some i) (images d)) (exercise_base self)).
               pk img \<le> pk x)
         \<and> delete self d =
             Inr (fst (snd (save (img\<lparr>is_main := True\<rparr>) (d\<lparr>images := filter (\<lambda>x. pk x \<noteq> Some i) (images d)\<rparr>))),
                  RowDelete i # reset_cache (languages d)
                    @ snd (snd (save (img\<lparr>is_main := True\<rparr>) (d\<lparr>images := filter (\<lambda>x. pk x \<noteq> Some i) (images d)\<rparr>))))
         \<and> delete self d = Inr (d', RowDelete i # reset_cache (languages d)
                    @ BulkUpdate (exercise_base self) # reset_cache (languages d) @ [RowSave (img\<lparr>is_main := True\<rparr>)])
         \<and> filter (\<lambda>x. exercise_base x = exercise_base self \<and> is_main x) (images d') = [img\<lparr>is_main := True\<rparr>]
         \<and> images d' = map (\<lambda>x. if pk x = pk img then img\<lparr>is_main := True\<rparr>
                                   else if exercise_base x = exercise_base self then x\<lparr>is_main := False\<rparr>
                                   else x) (filter (\<lambda>x. pk x \<noteq> Some i) (images d))"
proof -
  let ?b = "exercise_base self"
  let ?rows1 = "filter (\<lambda>x. pk x \<noteq> Some i) (images d)"
  let ?d1 = "d\<lparr>images := ?rows1\<rparr>"
  let ?q = "filter_is_main False (filter_exercise_base ?b (accepted objects))"
  have q: "?q = (\<lambda>x. exercise_base x = ?b \<and> status x = STATUS_ACCEPTED \<and> \<not> is_main x)"
    by (auto simp add: filter_is_main_def filter_exercise_base_def accepted_def objects_def)
  from assms(1) have wf1: "wf_table ?rows1" by (rule wf_table_filter)
  have cmain: "count (filter_is_main True (filter_exercise_base ?b (accepted objects))) ?rows1 = 0"
    using assms(4) by (simp add: count_accepted_main)
  have split: "length (accepted_images ?rows1 ?b)
                 = length (accepted_main_images ?rows1 ?b) + count ?q ?rows1"
    unfolding q by (rule accepted_split)
  moreover from assms(3) have "length (accepted_images ?rows1 ?b) \<noteq> 0" by simp
  ultimately have cnon: "count ?q ?rows1 \<noteq> 0" using assms(4) by simp
  then have "fetch ?q ?rows1 \<noteq> []" by (rule fetch_nonempty)
  then obtain img rest where f: "fetch ?q ?rows1 = img # rest"
    by (cases "fetch ?q ?rows1") auto
  from fetch_first [OF f] have mem1: "img \<in> set ?rows1" and qimg: "?q img"
    and least: "\<forall>x \<in> set ?rows1. ?q x \<longrightarrow> ordering img \<le> ordering x" by simp_all
  from qimg have base: "exercise_base img = ?b" and acc: "status img = STATUS_ACCEPTED"
    and nomain: "\<not> is_main img" unfolding q by simp_all
  from mem1 have mem: "img \<in> set (images d)" and pki: "pk img \<noteq> Some i" by simp_all
  have first: "filter (\<lambda>x. exercise_base x = ?b \<and> status x = STATUS_ACCEPTED \<and> \<not> is_main x)
             (fetch objects ?rows1) = img # rest"
    using f fetch_objects_filter [of ?q ?rows1] unfolding q by simp
  have minpk: "\<forall>x \<in> set (accepted_images ?rows1 ?b). pk img \<le> pk x"
  proof
    fix x
    assume x: "x \<in> set (accepted_images ?rows1 ?b)"
    then have xr: "x \<in> set ?rows1" and xb: "exercise_base x = ?b" and xs: "status x = STATUS_ACCEPTED"
      by (simp_all add: accepted_images_def)
    have "\<not> is_main x"
    proof
      assume "is_main x"
      with xr xb xs have "x \<in> set (accepted_main_images ?rows1 ?b)"
        by (simp add: accepted_main_images_def)
      with assms(4) show False by simp
    qed
    with xr xb xs least have "ordering img \<le> ordering x" unfolding q by simp
    with nomain \<open>\<not> is_main x\<close> show "pk img \<le> pk x" by (simp add: ordering_non_main)
  qed
  let ?img' = "img\<lparr>is_main := True\<rparr>"
  obtain a b c where s: "save ?img' ?d1 = (a, b, c)" by (cases "save ?img' ?d1") auto
  from assms(2) cmain cnon f s
  have del: "delete self d = Inr (b, RowDelete i # reset_cache (languages d) @ c)"
    by (simp add: delete_def Let_def model_delete_def)
  from assms(1) have "None \<notin> pk ` set (images d)" by (simp add: wf_table_def)
  with mem have "pk img \<noteq> None" by force
  then obtain j where j: "pk img = Some j" by auto
  let ?rows2 = "update_is_main (filter_exercise_base ?b objects) False ?rows1"
  from mem1 j have "Some j \<in> set (map pk ?rows1)" by force
  then have inpk: "Some j \<in> set (map pk ?rows2)" by (simp only: update_is_main_pks)
  from j have j': "pk ?img' = Some j" by simp
  note ms = model_save_update [OF j' inpk]
  from base have sv: "save ?img' ?d1 =
      (?img', ?d1\<lparr>images := map (\<lambda>x. if pk x = Some j then ?img' else x) ?rows2,
             sequence := advance (sequence d) (Some j)\<rparr>,
       [BulkUpdate ?b] @ reset_cache (languages ?d1) @ [RowSave ?img'])"
    by (simp add: save_main ms j)
  with s [symmetric] have "(a, b, c) =
      (?img', ?d1\<lparr>images := map (\<lambda>x. if pk x = Some j then ?img' else x) ?rows2,
             sequence := advance (sequence d) (Some j)\<rparr>,
       [BulkUpdate ?b] @ reset_cache (languages ?d1) @ [RowSave ?img'])"
    by (rule trans)
  then have a: "a = ?img'" and b: "images b = map (\<lambda>x. if pk x = Some j then ?img' else x) ?rows2"
    and c: "c = BulkUpdate ?b # reset_cache (languages d) @ [RowSave ?img']"
    by auto
  have rows: "images b = map (\<lambda>x. if pk x = pk img then ?img'
                                   else if exercise_base x = ?b then x\<lparr>is_main := False\<rparr>
                                   else x) ?rows1"
    unfolding b j by (simp add: update_is_main_def filter_exercise_base_def objects_def)
  have sole: "filter (\<lambda>x. exercise_base x = ?b \<and> is_main x) (images b) = [?img']"
  proof -
    let ?P = "\<lambda>x. exercise_base x = ?b \<and> is_main x"
    from wf1 have wf2: "wf_table ?rows2" by (simp add: update_is_main_wf)
    have "filter ?P (filter (\<lambda>x. pk x \<noteq> pk ?img') ?rows2)
            = filter (\<lambda>x. pk x \<noteq> pk ?img') (filter (\<lambda>x. exercise_base x = ?b \<and> True \<and> is_main x) ?rows2)"
      by (simp add: conj_commute)
    also have "\<dots> = []"
      by (simp only: update_is_main_cleared filter.simps)
    finally have none: "filter ?P (filter (\<lambda>x. pk x \<noteq> pk ?img') ?rows2) = []" .
    from model_save_count [OF wf2, of ?P _ ?img'] none base
    have "length (filter ?P (images b)) = 1"
      by (simp add: ms b j)
    moreover have "?img' \<in> set (filter ?P (images b))"
      using mem1 j base unfolding rows by force
    ultimately show ?thesis by (rule singleton_list)
  qed
  from s del have del2: "delete self d =
             Inr (fst (snd (save ?img' ?d1)),
                  RowDelete i # reset_cache (languages d) @ snd (snd (save ?img' ?d1)))"
    by simp
  from del c have del3: "delete self d = Inr (b, RowDelete i # reset_cache (languages d)
                    @ BulkUpdate ?b # reset_cache (languages d) @ [RowSave ?img'])"
    by simp
  from first mem pki minpk del2 del3 sole rows show ?thesis by blast
qed

theorem delete_promotes_first_accepted_witness:
  "wf_table [example_image (Some 1) 7 True STATUS_ACCEPTED,
             example_image (Some 3) 7 False STATUS_ACCEPTED,
             example_image (Some 2) 7 False STATUS_ACCEPTED]
   \<and> (\<exists>d'. delete (example_image (Some 1) 7 True STATUS_ACCEPTED)
          \<lparr>images = [example_image (Some 1) 7 True STATUS_ACCEPTED,
                      example_image (Some 3) 7 False STATUS_ACCEPTED,
                      example_image (Some 2) 7 False STATUS_ACCEPTED], languages = [1], sequence = 3\<rparr>
        = Inr (d', RowDelete 1 # reset_cache [1] @ BulkUpdate 7 # reset_cache [1]
                    @ [RowSave (example_image (Some 2) 7 True STATUS_ACCEPTED)])
      \<and> images d' = [example_image (Some 3) 7 False STATUS_ACCEPTED,
                      example_image (Some 2) 7 True STATUS_ACCEPTED])"
proof -
  let ?self = "example_image (Some 1) 7 True STATUS_ACCEPTED"
  let ?rows = "[example_image (Some 1) 7 True STATUS_ACCEPTED,
             example_image (Some 3) 7 False STATUS_ACCEPTED,
             example_image (Some 2) 7 False STATUS_ACCEPTED]"
  let ?d = "\<lparr>images = ?rows, languages = [1], sequence = 3\<rparr>"
  have wf: "wf_table (images ?d)" by (simp add: wf_table_def)
  have h2: "pk ?self = Some 1" by simp
  have h3: "accepted_images (filter (\<lambda>x. pk x \<noteq> Some 1) (images ?d)) (exercise_base ?self) \<noteq> []"
    by (simp add: accepted_images_def)
  have h4: "accepted_main_images (filter (\<lambda>x. pk x \<noteq> Some 1) (images ?d)) (exercise_base ?self) = []"
    by (simp add: accepted_main_images_def)
  have first: "filter (\<lambda>x. exercise_base x = exercise_base ?self \<and> status x = STATUS_ACCEPTED \<and> \<not> is_main x)
             (fetch objects (filter (\<lambda>x. pk x \<noteq> Some 1) (images ?d)))
          = [example_image (Some 2) 7 False STATUS_ACCEPTED, example_image (Some 3) 7 False STATUS_ACCEPTED]"
    by (simp add: fetch_def objects_def ordering_def)
  from delete_promotes_first_accepted [OF wf h2 h3 h4] obtain img rest d' where
    f: "filter (\<lambda>x. exercise_base x = exercise_base ?self \<and> status x = STATUS_ACCEPTED \<and> \<not> is_main x)
             (fetch objects (filter (\<lambda>x. pk x \<noteq> Some 1) (images ?d))) = img # rest"
    and del: "delete ?self ?d = Inr (d', RowDelete 1 # reset_cache (languages ?d)
                    @ BulkUpdate (exercise_base ?self) # reset_cache (languages ?d) @ [RowSave (img\<lparr>is_main := True\<rparr>)])"
    and rows: "images d' = map (\<lambda>x. if pk x = pk img then img\<lparr>is_main := True\<rparr>
                                   else if exercise_base x = exercise_base ?self then x\<lparr>is_main := False\<rparr>
                                   else x) (filter (\<lambda>x. pk x \<noteq> Some 1) (images ?d))"
    by blast
  from f first have img: "img = example_image (Some 2) 7 False STATUS_ACCEPTED" by simp
  have up: "(example_image (Some 2) 7 False STATUS_ACCEPTED)\<lparr>is_main := True\<rparr>
              = example_image (Some 2) 7 True STATUS_ACCEPTED"
    and up3: "(example_image (Some 3) 7 False STATUS_ACCEPTED)\<lparr>is_main := False\<rparr>
              = example_image (Some 3) 7 False STATUS_ACCEPTED"
    by (simp_all add: example_image_def)
  from del img up have del': "delete ?self ?d = Inr (d', RowDelete 1 # reset_cache [1] @ BulkUpdate 7 # reset_cache [1]
                    @ [RowSave (example_image (Some 2) 7 True STATUS_ACCEPTED)])"
    by simp
  from rows img up up3 have rows': "images d' = [example_image (Some 3) 7 False STATUS_ACCEPTED,
                      example_image (Some 2) 7 True STATUS_ACCEPTED]"
    by simp
  from wf del' rows' show ?thesis by auto
qed

text \<open>
  C6. Deleting a persisted record after which its exercise base has no accepted image:
  the table is the old one without the deleted row, and the events are the row's deletion
  and one cache invalidation, so no row is changed and nothing is saved. So it is when the
  deleted row was the only image of the base, which then has no image.
\<close>

theorem delete_without_accepted_images:
  assumes "pk self = Some i"
  shows "(accepted_images (filter (\<lambda>x. pk x \<noteq> Some i) (images d)) (exercise_base self) = []
            \<longrightarrow> delete self d
                 = Inr (d\<lparr>images := filter (\<lambda>x. pk x \<noteq> Some i) (images d)\<rparr>,
                        RowDelete i # reset_cache (languages d)))
       \<and> (filter (\<lambda>x. exercise_base x = exercise_base self \<and> pk x \<noteq> Some i) (images d) = []
            \<longrightarrow> delete self d
                 = Inr (d\<lparr>images := filter (\<lambda>x. pk x \<noteq> Some i) (images d)\<rparr>,
                        RowDelete i # reset_cache (languages d))
               \<and> filter (\<lambda>x. exercise_base x = exercise_base self)
                    (filter (\<lambda>x. pk x \<noteq> Some i) (images d)) = [])"
proof -
  let ?b = "exercise_base self"
  let ?rows1 = "filter (\<lambda>x. pk x \<noteq> Some i) (images d)"
  have norepair: "accepted_images ?rows1 ?b = []
        \<Longrightarrow> delete self d = Inr (d\<lparr>images := ?rows1\<rparr>, RowDelete i # reset_cache (languages d))"
  proof -
    assume a: "accepted_images ?rows1 ?b = []"
    have "count (filter_is_main False (filter_exercise_base ?b (accepted objects))) ?rows1
            = length (filter (\<lambda>x. \<not> is_main x) (accepted_images ?rows1 ?b))"
      by (simp add: count_def filter_is_main_def filter_exercise_base_def accepted_def objects_def
          accepted_images_def conj_commute conj_left_commute)
    with a have "count (filter_is_main False (filter_exercise_base ?b (accepted objects))) ?rows1 = 0"
      by simp
    with assms show ?thesis
      by (simp add: delete_def Let_def model_delete_def)
  qed
  have only: "filter (\<lambda>x. exercise_base x = ?b \<and> pk x \<noteq> Some i) (images d) = []
        \<Longrightarrow> delete self d = Inr (d\<lparr>images := ?rows1\<rparr>, RowDelete i # reset_cache (languages d))
            \<and> filter (\<lambda>x. exercise_base x = ?b) ?rows1 = []"
  proof -
    assume a: "filter (\<lambda>x. exercise_base x = ?b \<and> pk x \<noteq> Some i) (images d) = []"
    then have e: "filter (\<lambda>x. exercise_base x = ?b) ?rows1 = []" by (simp add: conj_commute)
    have "accepted_images ?rows1 ?b
            = filter (\<lambda>x. status x = STATUS_ACCEPTED) (filter (\<lambda>x. exercise_base x = ?b) ?rows1)"
      by (rule accepted_images_of_base)
    with e have "accepted_images ?rows1 ?b = []" by simp
    then have "delete self d = Inr (d\<lparr>images := ?rows1\<rparr>, RowDelete i # reset_cache (languages d))"
      by (rule norepair)
    with e show ?thesis by simp
  qed
  from norepair only show ?thesis by blast
qed

theorem delete_without_accepted_images_witness:
  "delete (example_image (Some 1) 7 True STATUS_ACCEPTED)
     \<lparr>images = [example_image (Some 1) 7 True STATUS_ACCEPTED,
                 example_image (Some 2) 7 False STATUS_PENDING], languages = [1], sequence = 2\<rparr>
     = Inr (\<lparr>images = [example_image (Some 2) 7 False STATUS_PENDING], languages = [1], sequence = 2\<rparr>,
            RowDelete 1 # reset_cache [1])
   \<and> delete (example_image (Some 1) 7 True STATUS_ACCEPTED)
     \<lparr>images = [example_image (Some 1) 7 True STATUS_ACCEPTED], languages = [1], sequence = 1\<rparr>
     = Inr (\<lparr>images = [], languages = [1], sequence = 1\<rparr>, RowDelete 1 # reset_cache [1])"
proof -
  have h: "pk (example_image (Some 1) 7 True STATUS_ACCEPTED) = Some 1" by simp
  from delete_without_accepted_images [OF h, of
      "\<lparr>images = [example_image (Some 1) 7 True STATUS_ACCEPTED,
                 example_image (Some 2) 7 False STATUS_PENDING], languages = [1], sequence = 2\<rparr>"]
  have a: "delete (example_image (Some 1) 7 True STATUS_ACCEPTED)
     \<lparr>images = [example_image (Some 1) 7 True STATUS_ACCEPTED,
                 example_image (Some 2) 7 False STATUS_PENDING], languages = [1], sequence = 2\<rparr>
     = Inr (\<lparr>images = [example_image (Some 2) 7 False STATUS_PENDING], languages = [1], sequence = 2\<rparr>,
            RowDelete 1 # reset_cache [1])"
    by (simp add: accepted_images_def)
  from delete_without_accepted_images [OF h, of
      "\<lparr>images = [example_image (Some 1) 7 True STATUS_ACCEPTED], languages = [1], sequence = 1\<rparr>"]
  have b: "delete (example_image (Some 1) 7 True STATUS_ACCEPTED)
     \<lparr>images = [example_image (Some 1) 7 True STATUS_ACCEPTED], languages = [1], sequence = 1\<rparr>
     = Inr (\<lparr>images = [], languages = [1], sequence = 1\<rparr>, RowDelete 1 # reset_cache [1])"
    by simp
  from a b show ?thesis by (rule conjI)
qed

subsection \<open>Cache invalidation\<close>

text \<open>
  C8. The cache invalidations of a call of \<open>save\<close> are those of one pass over the
  languages: four per language, each of the four fragments as often as the language is
  listed, whatever the record and the table. A call of \<open>delete\<close> on a persisted record
  deletes the row and makes one such pass; whatever follows are the events of the one call
  of \<open>save\<close> that promotes an image, with their own pass.
\<close>

theorem cache_invalidation:
  "cache_deletes (snd (snd (save self d))) = reset_cache (languages d)
   \<and> length (reset_cache (languages d)) = 4 * length (languages d)
   \<and> count_list (reset_cache (languages d)) (CacheDelete f l) =
       (if f \<in> {''muscle-overview'', ''exercise-overview'', ''exercise-overview-mobile'', ''equipment-overview''}
        then count_list (languages d) l else 0)
   \<and> (pk self = Some i \<longrightarrow>
        (\<exists>d' nested. delete self d = Inr (d', RowDelete i # reset_cache (languages d) @ nested)
           \<and> (nested = [] \<or> (\<exists>img. nested = snd (snd (save img (d\<lparr>images := model_delete i (images d)\<rparr>)))))))"
proof (intro conjI impI)
  show "cache_deletes (snd (snd (save self d))) = reset_cache (languages d)"
    by (rule cache_deletes_save)
  show "length (reset_cache (languages d)) = 4 * length (languages d)"
    by (rule length_reset_cache)
  show "count_list (reset_cache (languages d)) (CacheDelete f l) =
       (if f \<in> {''muscle-overview'', ''exercise-overview'', ''exercise-overview-mobile'', ''equipment-overview''}
        then count_list (languages d) l else 0)"
    by (rule count_list_reset_cache)
  assume "pk self = Some i"
  then show "\<exists>d' nested. delete self d = Inr (d', RowDelete i # reset_cache (languages d) @ nested)
           \<and> (nested = [] \<or> (\<exists>img. nested = snd (snd (save img (d\<lparr>images := model_delete i (images d)\<rparr>)))))"
    by (rule delete_events)
qed

theorem cache_invalidation_witness:
  "pk (example_image (Some 1) 7 True STATUS_ACCEPTED) = Some 1
   \<and> cache_deletes (snd (snd (save (example_image (Some 1) 7 True STATUS_ACCEPTED)
        \<lparr>images = [example_image (Some 1) 7 True STATUS_ACCEPTED], languages = [1, 2], sequence = 1\<rparr>)))
      = [CacheDelete ''muscle-overview'' 1, CacheDelete ''exercise-overview'' 1,
         CacheDelete ''exercise-overview-mobile'' 1, CacheDelete ''equipment-overview'' 1,
         CacheDelete ''muscle-overview'' 2, CacheDelete ''exercise-overview'' 2,
         CacheDelete ''exercise-overview-mobile'' 2, CacheDelete ''equipment-overview'' 2]
   \<and> (\<exists>d' nested. delete (example_image (Some 1) 7 True STATUS_ACCEPTED)
        \<lparr>images = [example_image (Some 1) 7 True STATUS_ACCEPTED], languages = [1, 2], sequence = 1\<rparr>
        = Inr (d', RowDelete 1 # reset_cache [1, 2] @ nested))"
proof -
  let ?d = "\<lparr>images = [example_image (Some 1) 7 True STATUS_ACCEPTED], languages = [1, 2], sequence = 1\<rparr>"
  have h: "pk (example_image (Some 1) 7 True STATUS_ACCEPTED) = Some 1" by simp
  note t = cache_invalidation [of "example_image (Some 1) 7 True STATUS_ACCEPTED" ?d
      "''muscle-overview''" 1 1]
  from t have a: "cache_deletes (snd (snd (save (example_image (Some 1) 7 True STATUS_ACCEPTED) ?d)))
      = reset_cache [1, 2]" by simp
  from t h have b: "\<exists>d' nested. delete (example_image (Some 1) 7 True STATUS_ACCEPTED) ?d
        = Inr (d', RowDelete 1 # reset_cache [1, 2] @ nested)"
    by auto
  from h a b show ?thesis by (simp add: reset_cache_def)
qed

subsection \<open>Author and status\<close>

text \<open>
  C2. The claim is that for a user without the permission \<open>exercises.add_exerciseimage\<close>
  \<open>set_author\<close> leaves the status, defaults the license author to the user's name,
  attempts one mail to the admins and returns. The code does not: after the default of
  the license author it reads \<open>self.name\<close> to format the message, which raises
  \<open>AttributeError\<close>, so \<open>mail_admins\<close> is never called and the call does not
  return. Here for the user bob, who holds no permission, and a new pending image.
\<close>

theorem set_author_without_permission_raises:
  "set_author True
       \<lparr>pk = None, uuid = ''u1'', exercise_base = 42, is_main = False,
        style = PHOTO, status = STATUS_PENDING, license_author = None\<rparr>
       \<lparr>request_user = \<lparr>username = ''bob'', permissions = []\<rparr>, host = ''wger.de:8000''\<rparr>
     = Inl (AttributeError,
        \<lparr>pk = None, uuid = ''u1'', exercise_base = 42, is_main = False,
         style = PHOTO, status = STATUS_PENDING, license_author = Some ''bob''\<rparr>)"
  by (simp add: set_author_def Let_def has_perm_def truthy_def attr_name_def)

text \<open>
  C7. For a user with the permission, \<open>set_author\<close> sets the status to accepted,
  sets an empty license author to the host without its port and leaves a given one, and
  sends no mail.
\<close>

theorem set_author_with_permission:
  assumes "has_perm (request_user r) ''exercises.add_exerciseimage''"
  shows "set_author transport_ok self r =
           Inr (self\<lparr>status := STATUS_ACCEPTED,
                     license_author := (if truthy (license_author self) then license_author self
                                        else Some (split_colon_0 (get_host r)))\<rparr>, [])
         \<and> (CHR '':'' \<notin> set domain \<longrightarrow>
              split_colon_0 (domain @ '':'' @ port) = domain \<and> split_colon_0 domain = domain)"
  using assms by (simp add: set_author_def Let_def split_colon_0_port split_colon_0_plain)

theorem set_author_with_permission_witness:
  "has_perm \<lparr>username = ''admin'', permissions = [''exercises.add_exerciseimage'']\<rparr> ''exercises.add_exerciseimage''
   \<and> set_author True
       \<lparr>pk = None, uuid = ''u1'', exercise_base = 42, is_main = False,
        style = PHOTO, status = STATUS_PENDING, license_author = None\<rparr>
       \<lparr>request_user = \<lparr>username = ''admin'', permissions = [''exercises.add_exerciseimage'']\<rparr>,
        host = ''wger.de:8000''\<rparr>
     = Inr (\<lparr>pk = None, uuid = ''u1'', exercise_base = 42, is_main = False,
        style = PHOTO, status = STATUS_ACCEPTED, license_author = Some ''wger.de''\<rparr>, [])"
proof -
  have h: "has_perm (request_user \<lparr>request_user = \<lparr>username = ''admin'', permissions = [''exercises.add_exerciseimage'']\<rparr>,
        host = ''wger.de:8000''\<rparr>) ''exercises.add_exerciseimage''"
    by (simp add: has_perm_def)
  from set_author_with_permission [OF h, of True
       "\<lparr>pk = None, uuid = ''u1'', exercise_base = 42, is_main = False,
        style = PHOTO, status = STATUS_PENDING, license_author = None\<rparr>"
       "''wger.de''" "''8000''"]
  show ?thesis
    by (simp add: has_perm_def truthy_def get_host_def)
qed

subsection \<open>The upload path\<close>

text \<open>
  C9. The upload path is \<open>exercise-images/\<close>, the id of the exercise base, a slash,
  the uuid and the suffix of the file name: the extension of a name \<open>stem.e\<close>, and
  nothing for a name without a dot.
\<close>

theorem exercise_image_upload_dir_path:
  "exercise_image_upload_dir instance filename
     = ''exercise-images/'' @ str_nat (exercise_base instance) @ ''/'' @ uuid instance @ suffix filename
   \<and> (stem \<noteq> [] \<and> e \<noteq> [] \<and> CHR ''/'' \<notin> set (stem @ e) \<and> CHR ''.'' \<notin> set e
        \<longrightarrow> exercise_image_upload_dir instance (stem @ ''.'' @ e)
             = ''exercise-images/'' @ str_nat (exercise_base instance) @ ''/'' @ uuid instance @ ''.'' @ e)
   \<and> (CHR ''.'' \<notin> set filename
        \<longrightarrow> exercise_image_upload_dir instance filename
             = ''exercise-images/'' @ str_nat (exercise_base instance) @ ''/'' @ uuid instance)"
  by (simp add: exercise_image_upload_dir_def suffix_no_dot suffix_extension [simplified])

theorem exercise_image_upload_dir_path_witness:
  "exercise_image_upload_dir
     \<lparr>pk = None, uuid = ''1b020b3a-3732-4c7e-92fd-a0cec90ed69b'', exercise_base = 42, is_main = False,
      style = PHOTO, status = STATUS_PENDING, license_author = None\<rparr>
     ''front.png''
   = ''exercise-images/42/1b020b3a-3732-4c7e-92fd-a0cec90ed69b.png''
   \<and> exercise_image_upload_dir
     \<lparr>pk = None, uuid = ''1b020b3a-3732-4c7e-92fd-a0cec90ed69b'', exercise_base = 42, is_main = False,
      style = PHOTO, status = STATUS_PENDING, license_author = None\<rparr>
     ''front''
   = ''exercise-images/42/1b020b3a-3732-4c7e-92fd-a0cec90ed69b''"
proof -
  have n: "str_nat 42 = ''42''" by code_simp
  note t = exercise_image_upload_dir_path [of
      "\<lparr>pk = None, uuid = ''1b020b3a-3732-4c7e-92fd-a0cec90ed69b'', exercise_base = 42, is_main = False,
      style = PHOTO, status = STATUS_PENDING, license_author = None\<rparr>"
      "''front''" "''front''" "''png''"]
  from t [THEN conjunct2, THEN conjunct1] have a: "exercise_image_upload_dir
     \<lparr>pk = None, uuid = ''1b020b3a-3732-4c7e-92fd-a0cec90ed69b'', exercise_base = 42, is_main = False,
      style = PHOTO, status = STATUS_PENDING, license_author = None\<rparr>
     ''front.png''
   = ''exercise-images/42/1b020b3a-3732-4c7e-92fd-a0cec90ed69b.png''"
    by (simp add: n)
  from t [THEN conjunct2, THEN conjunct2] have b: "exercise_image_upload_dir
     \<lparr>pk = None, uuid = ''1b020b3a-3732-4c7e-92fd-a0cec90ed69b'', exercise_base = 42, is_main = False,
      style = PHOTO, status = STATUS_PENDING, license_author = None\<rparr>
     ''front''
   = ''exercise-images/42/1b020b3a-3732-4c7e-92fd-a0cec90ed69b''"
    by (simp add: n)
  from a b show ?thesis by (rule conjI)
qed

end
